theory Spec2Isabelle
  imports Main "HOL-Library.Sublist"
begin

section \<open>JavaScript values, errors and promises\<close>

text \<open>
  The two helper classes of \<^verbatim>\<open>appium.js\<close> drive external processes and libraries.
  Every call that leaves the file (the process list, a shell command, the WebDriver
  client, the iOS tooling library) is a parameter of the model: a record holds what the
  outside world answers, and each operation returns, next to its result, the list of
  outside calls it made, in order.
\<close>

text \<open>
  An error thrown by the file itself is \<open>Error\<close> with its message; \<open>TypeError\<close> is what
  the runtime raises when a property is read on \<^verbatim>\<open>undefined\<close> or a built-in gets an
  argument that is not a string; \<open>LibError\<close> is an error that comes from outside.
\<close>

datatype js_error = Error string | TypeError | LibError string

text \<open>A promise is rejected either with a plain message or with an error object.\<close>

datatype reason = Msg string | Err js_error

datatype promise = Pending | Resolved | Rejected reason

text \<open>Only the first call of \<^verbatim>\<open>resolve\<close> or \<^verbatim>\<open>reject\<close> settles a promise.\<close>

definition settle :: "promise \<Rightarrow> promise \<Rightarrow> promise" where
  "settle p outcome = (if p = Pending then outcome else p)"

text \<open>\<^verbatim>\<open>s.includes(sub)\<close>, also \<^verbatim>\<open>s.indexOf(sub) > -1\<close>: \<open>sub\<close> occurs in \<open>s\<close>.\<close>

fun str_includes :: "string \<Rightarrow> string \<Rightarrow> bool" where
  "str_includes [] sub = (sub = [])"
| "str_includes (c # cs) sub = (prefix sub (c # cs) \<or> str_includes cs sub)"

text \<open>The single quote and the backslash, which a string literal cannot hold.\<close>

definition sq :: string where
  "sq = [CHR 0x27]"

definition backslash :: string where
  "backslash = [CHR 0x5C]"

section \<open>The boot poll\<close>

text \<open>
  \<^verbatim>\<open>childProcess.exec\<close> hands its callback the error (if the command failed), and what
  the command wrote on its standard output and standard error.
\<close>

record exec_result =
  error :: "js_error option"
  stdout :: string
  stderr :: string

text \<open>
  The state of one \<^verbatim>\<open>checkBooted\<close> call: the counter of the closure, the commands
  handed to \<^verbatim>\<open>exec\<close> so far, whether \<^verbatim>\<open>clearInterval\<close> was called, the promise, and
  the lines given to \<^verbatim>\<open>output.debug\<close>.
\<close>

record poll_state =
  count :: nat
  issued :: "string list"
  cleared :: bool
  settled :: promise
  debug_log :: "string list"

definition bootanim_cmd :: "string \<Rightarrow> string" where
  "bootanim_cmd platform =
     (if platform = ''emulator'' \<or> platform = ''genymotion''
      then ''adb -e shell getprop init.svc.bootanim''
      else ''adb -d shell getprop init.svc.bootanim'')"

definition timeout_msg :: string where
  "timeout_msg = ''Emulator didn'' @ sq @ ''t boot in 20 sequences, assuming an issue has occured''"

text \<open>The callback given to \<^verbatim>\<open>exec\<close>, branch by branch.\<close>

definition exec_callback :: "string \<Rightarrow> exec_result \<Rightarrow> poll_state \<Rightarrow> poll_state" where
  "exec_callback platform r s =
     (let s1 = s\<lparr>count := count s + 1\<rparr> in
      if str_includes (stdout r) ''stopped''
      then s1\<lparr>cleared := True, settled := settle (settled s1) Resolved\<rparr>
      else if count s1 \<ge> 20
      then s1\<lparr>cleared := True, settled := settle (settled s1) (Rejected (Msg timeout_msg))\<rparr>
      else
        let s2 = (if stderr r \<noteq> [] then s1\<lparr>debug_log := debug_log s1 @ [stderr r]\<rparr> else s1) in
        (case error r of
           Some e \<Rightarrow> s2\<lparr>cleared := True, settled := settle (settled s2) (Rejected (Err e))\<rparr>
         | None \<Rightarrow> s2\<lparr>debug_log := debug_log s2 @ [platform @ '' still booting'']\<rparr>))"

text \<open>
  The interval timer, started ten seconds after the call, and what happens while it
  runs. A tick of the timer hands the command to \<^verbatim>\<open>exec\<close> and returns; \<^verbatim>\<open>exec\<close> is
  asynchronous, and its callback runs later, when the command has ended. Between a tick
  and the callback of its command any number of further ticks may come, and the answers
  need not come back in the order of the queries. A run of \<^verbatim>\<open>checkBooted\<close> is
  therefore a sequence of events, each a tick or the arrival of an answer. After
  \<^verbatim>\<open>clearInterval\<close> the timer does not fire again.
\<close>

datatype event = Tick | Answer exec_result

definition tick :: "string \<Rightarrow> poll_state \<Rightarrow> poll_state" where
  "tick platform s =
     (if cleared s then s else s\<lparr>issued := issued s @ [bootanim_cmd platform]\<rparr>)"

fun step :: "string \<Rightarrow> poll_state \<Rightarrow> event \<Rightarrow> poll_state" where
  "step platform s Tick = tick platform s"
| "step platform s (Answer r) = exec_callback platform r s"

definition poll_start :: poll_state where
  "poll_start = \<lparr>count = 0, issued = [], cleared = False, settled = Pending, debug_log = []\<rparr>"

text \<open>The state of a \<^verbatim>\<open>checkBooted\<close> call after the events \<open>es\<close>.\<close>

definition checkBooted :: "string \<Rightarrow> event list \<Rightarrow> poll_state" where
  "checkBooted platform es = foldl (step platform) poll_start es"

text \<open>The answers of a run, in the order in which their callbacks ran.\<close>

fun answers :: "event list \<Rightarrow> exec_result list" where
  "answers [] = []"
| "answers (Tick # es) = answers es"
| "answers (Answer r # es) = r # answers es"

text \<open>
  A sequence of events can happen when every answer belongs to a query issued before it
  and not answered yet: the callbacks that ran are fewer than the queries issued. The
  properties proved below hold of every sequence of events, so of those that can happen;
  the runs that refute a claim are checked to be of this kind.
\<close>

fun feasible :: "string \<Rightarrow> poll_state \<Rightarrow> event list \<Rightarrow> bool" where
  "feasible platform s [] = True"
| "feasible platform s (Tick # es) = feasible platform (tick platform s) es"
| "feasible platform s (Answer r # es) =
     (count s < length (issued s) \<and> feasible platform (exec_callback platform r s) es)"

text \<open>The run in which every query is answered before the next tick.\<close>

definition in_step :: "exec_result list \<Rightarrow> event list" where
  "in_step rs = concat (map (\<lambda>r. [Tick, Answer r]) rs)"

text \<open>
  What the callback decides on the answer number \<open>i\<close> (counted from 0, in the order of
  the callbacks), read off its three tests in their order: \<open>None\<close> when it decides
  nothing.
\<close>

definition verdict :: "nat \<Rightarrow> exec_result \<Rightarrow> promise option" where
  "verdict i r =
     (if str_includes (stdout r) ''stopped'' then Some Resolved
      else if i + 1 \<ge> 20 then Some (Rejected (Msg timeout_msg))
      else (case error r of Some e \<Rightarrow> Some (Rejected (Err e)) | None \<Rightarrow> None))"

text \<open>Answers of the debug bridge and runs used as concrete inputs below.\<close>

definition still_booting :: exec_result where
  "still_booting = \<lparr>error = None, stdout = ''running'', stderr = []\<rparr>"

definition booted :: exec_result where
  "booted = \<lparr>error = None, stdout = ''stopped'', stderr = []\<rparr>"

definition offline :: exec_result where
  "offline = \<lparr>error = Some (LibError ''device offline''), stdout = [], stderr = ''error: device offline''\<rparr>"

definition fails_when_booted :: exec_result where
  "fails_when_booted = \<lparr>error = Some (LibError ''exit code 1''), stdout = ''stopped'', stderr = []\<rparr>"

text \<open>Answers that take longer than two intervals: two queries are always under way.\<close>

definition slow_answers :: "event list" where
  "slow_answers = [Tick, Tick] @ concat (replicate 20 [Tick, Answer still_booting])"

text \<open>The second query fails, and its answer arrives after two further ticks.\<close>

definition slow_failure :: "event list" where
  "slow_failure = [Tick, Answer still_booting, Tick, Tick, Tick, Answer offline]"

section \<open>Certificate and provisioning profile lookup\<close>

text \<open>
  The records that \<^verbatim>\<open>ioslib\<close> returns are objects with a \<^verbatim>\<open>name\<close> among other
  fields; the other fields are the extension of the record. The library answers with an
  object that maps a type to the list of its records, or fails. \<open>process_platform\<close>
  below is the value of \<^verbatim>\<open>process.platform\<close>.
\<close>

record ios_record =
  name :: string

type_synonym 'r ioslib_answer = "js_error + (string \<rightharpoonup> 'r ios_record_scheme list)"

datatype lib_call = Call_getCerts | Call_getProvisioningProfiles

text \<open>
  \<^verbatim>\<open>forEach\<close> with the assignment in its body: the variable keeps the record of the
  latest iteration whose test held.
\<close>

definition forEach_keep :: "('a \<Rightarrow> bool) \<Rightarrow> 'a list \<Rightarrow> 'a option" where
  "forEach_keep test xs = foldl (\<lambda>found x. if test x then Some x else found) None xs"

text \<open>
  The result of a lookup is \<open>Inr None\<close> for \<^verbatim>\<open>undefined\<close> and \<open>Inr (Some r)\<close> for a
  record; it comes with the calls made to the library.
\<close>

definition getCert ::
  "string \<Rightarrow> 'r ioslib_answer \<Rightarrow> string \<Rightarrow> string
     \<Rightarrow> (js_error + 'r ios_record_scheme option) \<times> lib_call list" where
  "getCert process_platform getCerts type search =
     (if process_platform \<noteq> ''darwin'' then (Inr None, [])
      else
        (case getCerts of
           Inl e \<Rightarrow> (Inl e, [Call_getCerts])
         | Inr certs \<Rightarrow>
             let subCerts = certs type;
                 valid = [''developer'', ''distribution'']
             in
               if \<not> List.member valid type
               then (Inl (Error (''Argument '' @ sq @ type @ sq @ '' is not a valid type of certificate'')),
                     [Call_getCerts])
               else
                 (case subCerts of
                    None \<Rightarrow> (Inl TypeError, [Call_getCerts])
                  | Some cs \<Rightarrow>
                      (case forEach_keep (\<lambda>cert. str_includes (name cert) search) cs of
                         None \<Rightarrow>
                           (Inl (Error (''No certificate found with a name including '' @ sq @ search @ sq)),
                            [Call_getCerts])
                       | Some foundCert \<Rightarrow> (Inr (Some foundCert), [Call_getCerts])))))"

definition getProfile ::
  "string \<Rightarrow> 'r ioslib_answer \<Rightarrow> string \<Rightarrow> string
     \<Rightarrow> (js_error + 'r ios_record_scheme option) \<times> lib_call list" where
  "getProfile process_platform getProvisioningProfiles type search =
     (if process_platform \<noteq> ''darwin'' then (Inr None, [])
      else
        (case getProvisioningProfiles of
           Inl e \<Rightarrow> (Inl e, [Call_getProvisioningProfiles])
         | Inr profiles \<Rightarrow>
             let subProfiles = profiles type;
                 valid = [''adhoc'', ''development'', ''distribution'']
             in
               if \<not> List.member valid type
               then (Inl (Error (''Argument '' @ sq @ type @ sq
                                  @ '' is not a valid type of provisioning profile'')),
                     [Call_getProvisioningProfiles])
               else
                 (case subProfiles of
                    None \<Rightarrow> (Inl TypeError, [Call_getProvisioningProfiles])
                  | Some ps \<Rightarrow>
                      (case forEach_keep (\<lambda>profile. name profile = search) ps of
                         None \<Rightarrow>
                           (Inl (Error (''No provisioning profile found with a name matching ''
                                          @ sq @ search @ sq)),
                            [Call_getProvisioningProfiles])
                       | Some foundProfile \<Rightarrow>
                           (Inr (Some foundProfile), [Call_getProvisioningProfiles])))))"

text \<open>
  The lookup as the specification words it: of the records that match, in list order,
  the last one.
\<close>

definition last_match :: "('a \<Rightarrow> bool) \<Rightarrow> 'a list \<Rightarrow> 'a option" where
  "last_match test xs = (case filter test xs of [] \<Rightarrow> None | y # ys \<Rightarrow> Some (last (y # ys)))"

text \<open>Records and library answers used as concrete inputs below.\<close>

record cert = ios_record +
  keychain :: string

definition two_developers :: "cert list" where
  "two_developers =
     [\<lparr>name = ''iPhone Developer: Ada'', keychain = ''login''\<rparr>,
      \<lparr>name = ''iPhone Distribution: Ada'', keychain = ''login''\<rparr>,
      \<lparr>name = ''iPhone Developer: Bob'', keychain = ''System''\<rparr>]"

definition certs_table :: "string \<rightharpoonup> cert list" where
  "certs_table = [''developer'' \<mapsto> two_developers, ''distribution'' \<mapsto> []]"

record profile = ios_record +
  uuid :: string

definition two_profiles :: "profile list" where
  "two_profiles =
     [\<lparr>name = ''Team Profile'', uuid = ''0001''\<rparr>,
      \<lparr>name = ''Team Profile Extra'', uuid = ''0002''\<rparr>,
      \<lparr>name = ''Team Profile'', uuid = ''0003''\<rparr>]"

definition profiles_table :: "string \<rightharpoonup> profile list" where
  "profiles_table = [''adhoc'' \<mapsto> [], ''development'' \<mapsto> two_profiles, ''distribution'' \<mapsto> []]"

section \<open>Calls that leave the file\<close>

text \<open>
  What an operation does to the outside, in the order of the statements: a call of
  \<^verbatim>\<open>output.step\<close>, \<^verbatim>\<open>output.debug\<close> or \<^verbatim>\<open>output.finish\<close>, a shell command run with \<^verbatim>\<open>execSync\<close>, a process started with
  \<^verbatim>\<open>spawn\<close>, the set-up of the assertion library, and the calls on the WebDriver client
  and on a driver session.
\<close>

datatype effect =
    Step string
  | Debug string
  | Finish
  | ExecSync string
  | Spawn string "string list"
  | ChaiSetup
  | LoadDriverCommands
  | Init
  | SessionCapabilities
  | CloseApp
  | RemoveApp "string option"
  | Quit

text \<open>A number inside a template literal is printed in decimal.\<close>

fun show_nat :: "nat \<Rightarrow> string" where
  "show_nat n =
     (if n < 10 then [''0123456789'' ! n]
      else show_nat (n div 10) @ [''0123456789'' ! (n mod 10)])"

declare show_nat.simps [simp del]

text \<open>
  \<^verbatim>\<open>path.join\<close> of the runtime: every argument must be a string, else a
  \<^verbatim>\<open>TypeError\<close> is thrown; the arguments that are not empty are joined with the
  separator of the host, and nothing to join gives \<^verbatim>\<open>.\<close>. The runtime then normalises
  the path (it resolves \<^verbatim>\<open>.\<close> and \<^verbatim>\<open>..\<close> and repeated separators), which is left
  out here: the segments this file joins are plain names, but for the project root
  that the caller passes.
\<close>

definition path_sep :: "string \<Rightarrow> string" where
  "path_sep process_platform = (if process_platform = ''win32'' then backslash else ''/'')"

fun join_with :: "string \<Rightarrow> string list \<Rightarrow> string" where
  "join_with sep [] = []"
| "join_with sep [x] = x"
| "join_with sep (x # y # ys) = x @ sep @ join_with sep (y # ys)"

definition path_join :: "string \<Rightarrow> string option list \<Rightarrow> js_error + string" where
  "path_join process_platform args =
     (if List.member args None then Inl TypeError
      else
        (case filter (\<lambda>arg. arg \<noteq> []) (map the args) of
           [] \<Rightarrow> Inr ''.''
         | x # xs \<Rightarrow> Inr (join_with (path_sep process_platform) (x # xs))))"

section \<open>The Appium server and the emulator processes\<close>

text \<open>
  An entry of the process list, and what \<^verbatim>\<open>ps-list\<close> answers: the list, or a failure.
\<close>

record proc =
  pid :: nat
  cmd :: string

type_synonym ps_answer = "js_error + proc list"

text \<open>\<^verbatim>\<open>getAppium\<close>: the first process whose command line contains the path of the binary.\<close>

definition getAppium :: "string \<Rightarrow> ps_answer \<Rightarrow> js_error + proc option" where
  "getAppium process_platform ps =
     (case ps of
        Inl e \<Rightarrow> Inl e
      | Inr list \<Rightarrow>
          (case path_join process_platform [Some ''node_modules'', Some ''.bin'', Some ''appium''] of
             Inl e \<Rightarrow> Inl e
           | Inr appiumPath \<Rightarrow> Inr (List.find (\<lambda>x. str_includes (cmd x) appiumPath) list)))"

text \<open>
  \<^verbatim>\<open>quitServ\<close>. \<open>exec\<close> is what \<^verbatim>\<open>execSync\<close> does with a command: \<open>None\<close> when it
  succeeds, the error it throws otherwise. The result is the error thrown, if any, and the
  calls made.
\<close>

definition quitServ ::
  "string \<Rightarrow> ps_answer \<Rightarrow> (string \<Rightarrow> js_error option) \<Rightarrow> js_error option \<times> effect list" where
  "quitServ process_platform ps exec =
     (let started = [Step ''Stopping Appium Server''] in
      case getAppium process_platform ps of
        Inl e \<Rightarrow> (Some e, started)
      | Inr None \<Rightarrow> (Some (Error ''PID for Appium not found!''), started)
      | Inr (Some processInfo) \<Rightarrow>
          let found = started @ [Debug (''Found Appium server PID: '' @ show_nat (pid processInfo))];
              (note, kill) =
                (if process_platform = ''win32''
                 then (''Detected Windows, killing Appium server with taskkill command'',
                       ''taskkill /F /PID '' @ show_nat (pid processInfo))
                 else (''Presuming UNIX, killing Appium server with kill command'',
                       ''kill -9 '' @ show_nat (pid processInfo)))
          in
            (case exec kill of
               Some e \<Rightarrow> (Some e, found @ [Debug note, ExecSync kill])
             | None \<Rightarrow> (None, found @ [Debug note, ExecSync kill, Finish])))"

text \<open>
  \<^verbatim>\<open>getAndroidPID\<close>: whatever goes wrong inside its \<^verbatim>\<open>try\<close> (the process list fails,
  or no entry is found and \<^verbatim>\<open>proc.pid\<close> is read on \<^verbatim>\<open>undefined\<close>) becomes the one error
  of its \<^verbatim>\<open>catch\<close>.
\<close>

definition getAndroidPID :: "ps_answer \<Rightarrow> string \<Rightarrow> js_error + nat" where
  "getAndroidPID ps deviceName =
     (let not_found = Error (''Cannot find an Android PID for '' @ deviceName) in
      case ps of
        Inl e \<Rightarrow> Inl not_found
      | Inr list \<Rightarrow>
          (case List.find (\<lambda>x. str_includes (cmd x) deviceName) list of
             None \<Rightarrow> Inl not_found
           | Some proc \<Rightarrow> Inr (pid proc)))"

definition killEmu ::
  "string \<Rightarrow> ps_answer \<Rightarrow> (string \<Rightarrow> js_error option) \<Rightarrow> string
     \<Rightarrow> js_error option \<times> effect list" where
  "killEmu process_platform ps exec deviceName =
     (case getAndroidPID ps deviceName of
        Inl e \<Rightarrow> (Some e, [])
      | Inr devicePID \<Rightarrow>
          let found = [Debug (''Found Android emulator PID: '' @ show_nat devicePID)];
              (note, kill) =
                (if process_platform = ''win32''
                 then (''Detected Windows, killing emulator with taskkill command'',
                       ''taskkill /F /PID '' @ show_nat devicePID)
                 else (''Presuming UNIX, killing emulator with kill command'',
                       ''kill -9 '' @ show_nat devicePID))
          in
            (case exec kill of
               Some e \<Rightarrow> (Some e, found @ [Debug note, ExecSync kill])
             | None \<Rightarrow> (None, found @ [Debug note, ExecSync kill])))"

text \<open>
  \<^verbatim>\<open>runAppium\<close>, up to the end of the function given to the promise. An option that the
  caller leaves out takes its default; the port is kept as it prints. An exception
  thrown inside the function rejects the promise. After \<^verbatim>\<open>spawn\<close> the promise is pending:
  the handlers registered on the child settle it later, when the child writes.
\<close>

definition runAppium ::
  "string \<Rightarrow> string \<Rightarrow> string option \<Rightarrow> string option \<Rightarrow> promise \<times> effect list" where
  "runAppium process_platform modRoot hostname_option port_option =
     (let hostname = (case hostname_option of None \<Rightarrow> ''localhost'' | Some h \<Rightarrow> h);
          port = (case port_option of None \<Rightarrow> ''4723'' | Some p \<Rightarrow> p);
          started = [Step (''Starting Appium Server On '' @ sq @ hostname @ '':'' @ port @ sq)];
          validAddresses = [''localhost'', ''0.0.0.0'', ''127.0.0.1'']
      in
        if List.member validAddresses hostname
        then
          let exe = (if process_platform = ''darwin'' then Some ''appium''
                     else if process_platform = ''win32'' then Some ''appium.cmd''
                     else None)
          in
            (case path_join process_platform [Some modRoot, Some ''node_modules'', Some ''.bin'', exe] of
               Inl e \<Rightarrow> (Rejected (Err e), started)
             | Inr appiumExe \<Rightarrow>
                 let flags = [''--log-no-colors'', ''-a'', hostname, ''-p'', port, ''--show-ios-log'']
                 in (Pending, started @ [Spawn appiumExe flags]))
        else
          (Rejected (Msg ''Connecting to an External Appium Server is Not Currently Supported''),
           started))"

text \<open>Process lists and shell answers used as concrete inputs below.\<close>

definition no_appium :: "proc list" where
  "no_appium =
     [\<lparr>pid = 1, cmd = ''/sbin/launchd''\<rparr>,
      \<lparr>pid = 412, cmd = ''/usr/bin/node server.js''\<rparr>]"

definition with_appium :: "proc list" where
  "with_appium =
     [\<lparr>pid = 1, cmd = ''/sbin/launchd''\<rparr>,
      \<lparr>pid = 5021, cmd = ''node /project/node_modules/.bin/appium --log-no-colors -a localhost -p 4723 --show-ios-log''\<rparr>,
      \<lparr>pid = 5100, cmd = ''/sdk/emulator/qemu-system-x86_64 -avd Pixel_3 -wipe-data''\<rparr>]"

definition exec_ok :: "string \<Rightarrow> js_error option" where
  "exec_ok command = None"

section \<open>The WebDriver session\<close>

text \<open>
  The capabilities that a session reports: the fields that \<^verbatim>\<open>stopClient\<close> reads. A
  field that is \<^verbatim>\<open>undefined\<close> is \<open>None\<close>; \<^verbatim>\<open>desired\<close> is itself an object.
\<close>

record desired_caps =
  appPackage :: "string option"

record session_caps =
  platformName :: "string option"
  CFBundleIdentifier :: "string option"
  desired :: "desired_caps option"

text \<open>
  A driver, as far as this file uses it: what each of its calls answers. A call that
  succeeds answers \<open>None\<close> (or its value), one that fails answers its error;
  \<open>init\<close> is the error handed to the callback of \<^verbatim>\<open>driver.init\<close>, if any.
\<close>

record driver =
  sessionCapabilities :: "js_error + session_caps"
  closeApp :: "js_error option"
  removeApp :: "string option \<Rightarrow> js_error option"
  quit :: "js_error option"
  init :: "reason option"

text \<open>The two properties that this file keeps on \<^verbatim>\<open>global\<close>.\<close>

record globals =
  global_driver :: "driver option"
  global_webdriver :: bool

text \<open>
  \<^verbatim>\<open>stopClient\<close>: the error that ends the function, if any, the globals afterwards, and
  the calls made. On iOS the identifier given to \<^verbatim>\<open>removeApp\<close> is read from the
  capabilities, on Android from their \<^verbatim>\<open>desired\<close> object, and reading it there throws
  when that object is missing.
\<close>

definition stopClient :: "globals \<Rightarrow> js_error option \<times> globals \<times> effect list" where
  "stopClient g =
     (let t0 = [Debug ''Stopping WebDriver Instance''] in
      case global_driver g of
        None \<Rightarrow> (None, g, t0)
      | Some driver \<Rightarrow>
          (case sessionCapabilities driver of
             Inl e \<Rightarrow> (Some e, g, t0 @ [SessionCapabilities])
           | Inr capabilities \<Rightarrow>
               let platform = platformName capabilities;
                   t1 = t0 @ [SessionCapabilities, Debug ''Closing the application'', CloseApp]
               in
                 (case closeApp driver of
                    Some e \<Rightarrow> (Some e, g, t1)
                  | None \<Rightarrow>
                      let (removed, t2) =
                            (if platform = Some ''Android'' \<or> platform = Some ''iOS''
                             then
                               let t = t1 @ [Debug ''Removing the app from device''] in
                               (case (if platform = Some ''iOS''
                                      then Inr (CFBundleIdentifier capabilities)
                                      else (case desired capabilities of
                                              None \<Rightarrow> Inl TypeError
                                            | Some d \<Rightarrow> Inr (appPackage d))) of
                                  Inl e \<Rightarrow> (Some e, t)
                                | Inr app \<Rightarrow> (removeApp driver app, t @ [RemoveApp app]))
                             else (None, t1))
                      in
                        (case removed of
                           Some e \<Rightarrow> (Some e, g, t2)
                         | None \<Rightarrow>
                             let t3 = t2 @ [Debug ''Exiting the WebDriver session'', Quit] in
                             (case quit driver of
                                Some e \<Rightarrow> (Some e, g, t3)
                              | None \<Rightarrow> (None, g\<lparr>global_driver := None\<rparr>, t3))))))"

text \<open>
  The desired capabilities that the caller hands to \<^verbatim>\<open>startClient\<close>: an object whose
  fields hold strings, numbers or booleans.
\<close>

datatype js_value = Str string | Num int | Bool bool

type_synonym capabilities = "string \<rightharpoonup> js_value"

text \<open>
  \<^verbatim>\<open>s.split(' ')\<close>, \<^verbatim>\<open>args.indexOf(x)\<close> (\<open>- 1\<close> when \<open>x\<close> is absent) and \<^verbatim>\<open>args[i]\<close>
  (\<^verbatim>\<open>undefined\<close> outside the array).
\<close>

fun split_on :: "char \<Rightarrow> string \<Rightarrow> string list" where
  "split_on sep [] = [[]]"
| "split_on sep (c # cs) =
     (if c = sep then [] # split_on sep cs
      else (case split_on sep cs of
              [] \<Rightarrow> [[c]]
            | w # ws \<Rightarrow> (c # w) # ws))"

fun indexOf :: "'a list \<Rightarrow> 'a \<Rightarrow> int" where
  "indexOf [] x = - 1"
| "indexOf (y # ys) x =
     (if y = x then 0
      else (let i = indexOf ys x in if i < 0 then - 1 else i + 1))"

definition element_at :: "'a list \<Rightarrow> int \<Rightarrow> 'a option" where
  "element_at xs i = (if 0 \<le> i \<and> nat i < length xs then Some (xs ! nat i) else None)"

text \<open>The fields that \<^verbatim>\<open>startClient\<close> writes into the capabilities of the caller.\<close>

definition inject_capabilities :: "capabilities \<Rightarrow> capabilities" where
  "inject_capabilities capabilities =
     (let c1 =
        (if capabilities ''platformName'' = Some (Str ''iOS'')
         then capabilities(''automationName'' \<mapsto> Str ''XCUITest'')
         else if capabilities ''platformName'' = Some (Str ''Android'')
         then (capabilities(''deviceReadyTimeout'' \<mapsto> Num 60))(''automationName'' \<mapsto> Str ''Appium'')
         else capabilities)
      in c1(''newCommandTimeout'' \<mapsto> Num (60 * 10)))"

text \<open>
  \<^verbatim>\<open>startClient\<close>: the promise, the capabilities object of the caller and the globals
  afterwards, and the calls made. \<open>promiseChainRemote\<close> is the constructor of the
  WebDriver client: it makes the driver for a host and a port. The function given to
  the promise is \<^verbatim>\<open>async\<close>: when it throws (the process list fails, or no Appium process
  is found and \<^verbatim>\<open>processInfo.cmd\<close> is read on \<^verbatim>\<open>undefined\<close>), nothing settles the
  promise. \<^verbatim>\<open>reject\<close> does not end the function; what follows it still runs.
\<close>

definition startClient ::
  "string \<Rightarrow> ps_answer \<Rightarrow> (string option \<Rightarrow> string option \<Rightarrow> driver) \<Rightarrow> globals \<Rightarrow> capabilities
     \<Rightarrow> promise \<times> capabilities \<times> globals \<times> effect list" where
  "startClient process_platform ps promiseChainRemote g capabilities =
     (let capabilities' = inject_capabilities capabilities;
          t0 = [Debug ''Starting WebDriver Instance'', ChaiSetup]
      in
        case getAppium process_platform ps of
          Inl e \<Rightarrow> (Pending, capabilities', g, t0)
        | Inr None \<Rightarrow> (Pending, capabilities', g, t0)
        | Inr (Some processInfo) \<Rightarrow>
            let args = split_on CHR '' '' (cmd processInfo);
                host = element_at args (indexOf args ''-a'' + 1);
                port = element_at args (indexOf args ''-p'' + 1);
                p1 = (if host = None \<or> port = None
                      then settle Pending (Rejected (Msg ''Cannot locate Appium server details''))
                      else Pending);
                driver = promiseChainRemote host port;
                g' = g\<lparr>global_driver := Some driver, global_webdriver := True\<rparr>;
                t1 = t0 @ [LoadDriverCommands, Init];
                p2 = (case init driver of
                        Some err \<Rightarrow> settle p1 (Rejected err)
                      | None \<Rightarrow> settle p1 Resolved)
            in (p2, capabilities', g', t1))"

text \<open>Drivers, globals and capabilities used as concrete inputs below.\<close>

definition android_session :: driver where
  "android_session =
     \<lparr>sessionCapabilities =
        Inr \<lparr>platformName = Some ''Android'', CFBundleIdentifier = None,
             desired = Some \<lparr>appPackage = Some ''com.example.app''\<rparr>\<rparr>,
      closeApp = None, removeApp = (\<lambda>app. None), quit = None, init = None\<rparr>"

definition no_session :: globals where
  "no_session = \<lparr>global_driver = None, global_webdriver = True\<rparr>"

definition ios_caps :: capabilities where
  "ios_caps = [''platformName'' \<mapsto> Str ''iOS'', ''deviceName'' \<mapsto> Str ''iPhone 7'',
               ''app'' \<mapsto> Str ''/build/App.app'']"

definition android_caps :: capabilities where
  "android_caps = [''platformName'' \<mapsto> Str ''Android'', ''deviceName'' \<mapsto> Str ''Pixel_3'',
                   ''appPackage'' \<mapsto> Str ''com.example.app'']"

definition appium_without_address :: "proc list" where
  "appium_without_address =
     [\<lparr>pid = 5021, cmd = ''node /project/node_modules/.bin/appium --log-no-colors -p 4723 -a''\<rparr>]"

section \<open>Properties of the boot poll\<close>

lemma callback_count: "count (exec_callback p r s) = count s + 1"
  by (simp add: exec_callback_def Let_def split: option.splits)

lemma callback_issued: "issued (exec_callback p r s) = issued s"
  by (simp add: exec_callback_def Let_def split: option.splits)

lemma callback_undecided:
  "verdict (count s) r = None \<Longrightarrow>
     settled (exec_callback p r s) = settled s \<and> cleared (exec_callback p r s) = cleared s"
  by (auto simp: verdict_def exec_callback_def Let_def split: if_splits option.splits)

lemma callback_decided:
  "verdict (count s) r = Some v \<Longrightarrow>
     settled (exec_callback p r s) = settle (settled s) v \<and> cleared (exec_callback p r s)"
  by (auto simp: verdict_def exec_callback_def Let_def split: if_splits option.splits)

lemma callback_keeps_cleared: "cleared s \<Longrightarrow> cleared (exec_callback p r s)"
  by (simp add: exec_callback_def Let_def split: option.splits)

lemma callback_keeps_settled:
  "settled s \<noteq> Pending \<Longrightarrow> settled (exec_callback p r s) = settled s"
  by (simp add: exec_callback_def Let_def settle_def split: option.splits)

lemma verdict_settles: "verdict i r = Some v \<Longrightarrow> v \<noteq> Pending"
  by (auto simp: verdict_def split: if_splits option.splits)

lemma verdict_stopped: "str_includes (stdout r) ''stopped'' \<Longrightarrow> verdict i r = Some Resolved"
  by (simp add: verdict_def)

lemma verdict_None:
  "verdict i r = None \<longleftrightarrow> \<not> str_includes (stdout r) ''stopped'' \<and> i < 19 \<and> error r = None"
  by (auto simp: verdict_def split: option.splits)

lemma verdict_error: "error r = Some e \<Longrightarrow> verdict i r \<noteq> None"
  by (simp add: verdict_def)

lemma checkBooted_snoc: "checkBooted p (es @ [e]) = step p (checkBooted p es) e"
  by (simp add: checkBooted_def)

lemma checkBooted_append:
  "checkBooted p (es @ es') = foldl (step p) (checkBooted p es) es'"
  by (simp add: checkBooted_def)

lemma answers_append: "answers (es @ es') = answers es @ answers es'"
  by (induction es rule: answers.induct) simp_all

text \<open>
  Once the timer is cleared it stays cleared and no query is issued any more; a settled
  promise keeps its outcome.
\<close>

lemma cleared_frozen:
  assumes "cleared s"
  shows "cleared (foldl (step p) s es) \<and> issued (foldl (step p) s es) = issued s
         \<and> (settled s \<noteq> Pending \<longrightarrow> settled (foldl (step p) s es) = settled s)"
  using assms
proof (induction es arbitrary: s)
  case Nil
  show ?case using Nil by simp
next
  case (Cons e es)
  show ?case
  proof (cases e)
    case Tick
    with Cons.prems have "step p s e = s"
      by (simp add: tick_def)
    with Cons.IH [OF Cons.prems] show ?thesis
      by simp
  next
    case (Answer r)
    from Cons.prems have c: "cleared (exec_callback p r s)"
      by (rule callback_keeps_cleared)
    from Cons.IH [OF c] Answer show ?thesis
      by (simp add: callback_issued callback_keeps_settled)
  qed
qed

text \<open>
  The outcome of a run is decided by its answers alone, in the order of their callbacks:
  by the first answer on which the callback decides.
\<close>

lemma checkBooted_run:
  "count (checkBooted p es) = length (answers es)
   \<and> ((settled (checkBooted p es) = Pending \<and> \<not> cleared (checkBooted p es)
         \<and> (\<forall>i<length (answers es). verdict i (answers es ! i) = None))
       \<or> (\<exists>n<length (answers es). cleared (checkBooted p es)
             \<and> verdict n (answers es ! n) = Some (settled (checkBooted p es))
             \<and> (\<forall>i<n. verdict i (answers es ! i) = None)))"
proof (induction es rule: rev_induct)
  case Nil
  show ?case by (simp add: checkBooted_def poll_start_def)
next
  case (snoc e es)
  let ?s = "checkBooted p es"
  let ?rs = "answers es"
  from snoc have cnt: "count ?s = length ?rs" by blast
  show ?case
  proof (cases e)
    case Tick
    have same: "count (tick p ?s) = count ?s" "settled (tick p ?s) = settled ?s"
      "cleared (tick p ?s) = cleared ?s"
      by (simp_all add: tick_def)
    from Tick have "answers (es @ [e]) = ?rs"
      by (simp add: answers_append)
    with snoc Tick same show ?thesis
      by (simp add: checkBooted_snoc)
  next
    case (Answer r)
    let ?s' = "exec_callback p r ?s"
    from Answer have run': "checkBooted p (es @ [e]) = ?s'"
      by (simp add: checkBooted_snoc)
    from Answer have ans': "answers (es @ [e]) = ?rs @ [r]"
      by (simp add: answers_append)
    have cnt': "count ?s' = length (?rs @ [r])"
      by (simp add: callback_count cnt)
    from snoc consider
      (pending) "settled ?s = Pending" "\<not> cleared ?s" "\<forall>i<length ?rs. verdict i (?rs ! i) = None"
      | (decided) n where "n < length ?rs" "cleared ?s" "verdict n (?rs ! n) = Some (settled ?s)"
          "\<forall>i<n. verdict i (?rs ! i) = None"
      by blast
    then have "(settled ?s' = Pending \<and> \<not> cleared ?s'
         \<and> (\<forall>i<length (?rs @ [r]). verdict i ((?rs @ [r]) ! i) = None))
       \<or> (\<exists>n<length (?rs @ [r]). cleared ?s'
             \<and> verdict n ((?rs @ [r]) ! n) = Some (settled ?s')
             \<and> (\<forall>i<n. verdict i ((?rs @ [r]) ! i) = None))"
    proof cases
      case pending
      show ?thesis
      proof (cases "verdict (length ?rs) r")
        case None
        with callback_undecided [of ?s r p] cnt pending
        have "settled ?s' = Pending" "\<not> cleared ?s'"
          by simp_all
        moreover have "\<forall>i<length (?rs @ [r]). verdict i ((?rs @ [r]) ! i) = None"
          using pending(3) None by (simp add: nth_append less_Suc_eq)
        ultimately show ?thesis by blast
      next
        case (Some v)
        with callback_decided [of ?s r v p] cnt pending
        have "settled ?s' = v" "cleared ?s'"
          by (simp_all add: settle_def)
        moreover have "verdict (length ?rs) ((?rs @ [r]) ! length ?rs) = Some v"
          using Some by simp
        moreover have "\<forall>i<length ?rs. verdict i ((?rs @ [r]) ! i) = None"
          using pending(3) by (simp add: nth_append)
        ultimately have "length ?rs < length (?rs @ [r]) \<and> cleared ?s'
             \<and> verdict (length ?rs) ((?rs @ [r]) ! length ?rs) = Some (settled ?s')
             \<and> (\<forall>i<length ?rs. verdict i ((?rs @ [r]) ! i) = None)"
          by simp
        then show ?thesis by blast
      qed
    next
      case decided
      from decided(3) have "settled ?s \<noteq> Pending"
        using verdict_settles [of n "?rs ! n" "settled ?s"] by simp
      then have keep: "settled ?s' = settled ?s"
        by (rule callback_keeps_settled)
      from decided(2) have cl: "cleared ?s'"
        by (rule callback_keeps_cleared)
      from decided(1,3,4) keep cl have "n < length (?rs @ [r]) \<and> cleared ?s'
             \<and> verdict n ((?rs @ [r]) ! n) = Some (settled ?s')
             \<and> (\<forall>i<n. verdict i ((?rs @ [r]) ! i) = None)"
        by (simp add: nth_append)
      then show ?thesis by blast
    qed
    with cnt' run' ans' show ?thesis
      by simp
  qed
qed

lemma in_step_snoc: "in_step (rs @ [r]) = in_step rs @ [Tick, Answer r]"
  by (simp add: in_step_def)

lemma answers_in_step: "answers (in_step rs) = rs"
  by (induction rs) (simp_all add: in_step_def)

text \<open>
  When every query is answered before the next tick, the queries issued are as many as
  the answers up to the deciding one.
\<close>

lemma in_step_run:
  "(\<not> cleared (checkBooted p (in_step rs))
      \<and> length (issued (checkBooted p (in_step rs))) = length rs
      \<and> (\<forall>i<length rs. verdict i (rs ! i) = None))
   \<or> (\<exists>n<length rs. cleared (checkBooted p (in_step rs))
         \<and> length (issued (checkBooted p (in_step rs))) = n + 1
         \<and> verdict n (rs ! n) \<noteq> None
         \<and> (\<forall>i<n. verdict i (rs ! i) = None))"
proof (induction rs rule: rev_induct)
  case Nil
  show ?case by (simp add: in_step_def checkBooted_def poll_start_def)
next
  case (snoc r rs)
  let ?s = "checkBooted p (in_step rs)"
  have cnt: "count ?s = length rs"
    using checkBooted_run [of p "in_step rs"] by (simp add: answers_in_step)
  have run': "checkBooted p (in_step (rs @ [r])) = exec_callback p r (tick p ?s)"
    by (simp add: in_step_snoc checkBooted_append)
  from snoc consider
    (running) "\<not> cleared ?s" "length (issued ?s) = length rs"
      "\<forall>i<length rs. verdict i (rs ! i) = None"
    | (over) n where "n < length rs" "cleared ?s" "length (issued ?s) = n + 1"
        "verdict n (rs ! n) \<noteq> None" "\<forall>i<n. verdict i (rs ! i) = None"
    by blast
  then show ?case
  proof cases
    case running
    have t: "count (tick p ?s) = length rs" "\<not> cleared (tick p ?s)"
      "length (issued (tick p ?s)) = length rs + 1"
      using running cnt by (simp_all add: tick_def)
    show ?thesis
    proof (cases "verdict (length rs) r")
      case None
      with callback_undecided [of "tick p ?s" r p] t
      have "\<not> cleared (exec_callback p r (tick p ?s))"
        by simp
      moreover have "length (issued (exec_callback p r (tick p ?s))) = length (rs @ [r])"
        using t by (simp add: callback_issued)
      moreover have "\<forall>i<length (rs @ [r]). verdict i ((rs @ [r]) ! i) = None"
        using running(3) None by (simp add: nth_append less_Suc_eq)
      ultimately show ?thesis
        unfolding run' by blast
    next
      case (Some v)
      with callback_decided [of "tick p ?s" r v p] t
      have "cleared (exec_callback p r (tick p ?s))"
        by simp
      moreover have "length (issued (exec_callback p r (tick p ?s))) = length rs + 1"
        using t by (simp add: callback_issued)
      moreover have "verdict (length rs) ((rs @ [r]) ! length rs) \<noteq> None"
        using Some by simp
      moreover have "\<forall>i<length rs. verdict i ((rs @ [r]) ! i) = None"
        using running(3) by (simp add: nth_append)
      ultimately have "length rs < length (rs @ [r])
          \<and> cleared (exec_callback p r (tick p ?s))
          \<and> length (issued (exec_callback p r (tick p ?s))) = length rs + 1
          \<and> verdict (length rs) ((rs @ [r]) ! length rs) \<noteq> None
          \<and> (\<forall>i<length rs. verdict i ((rs @ [r]) ! i) = None)"
        by simp
      then show ?thesis
        unfolding run' by blast
    qed
  next
    case over
    have t: "tick p ?s = ?s"
      using over(2) by (simp add: tick_def)
    have "cleared (exec_callback p r ?s)"
      using over(2) by (rule callback_keeps_cleared)
    moreover have "length (issued (exec_callback p r ?s)) = n + 1"
      using over(3) by (simp add: callback_issued)
    moreover have "verdict n ((rs @ [r]) ! n) \<noteq> None" "\<forall>i<n. verdict i ((rs @ [r]) ! i) = None"
      using over(1,4,5) by (simp_all add: nth_append)
    moreover have "n < length (rs @ [r])"
      using over(1) by simp
    ultimately show ?thesis
      unfolding run' t by blast
  qed
qed

text \<open>
  Claim C1, as stated, fails on the code. The counter is raised in the callback, so it
  counts answers, not queries. When the answers take longer than two intervals, two
  queries are always under way: the twentieth answer, which brings the timeout, arrives
  after 22 queries have been issued.
\<close>

theorem checkBooted_poll_counterexample:
  "feasible ''emulator'' poll_start slow_answers
   \<and> answers slow_answers = replicate 20 still_booting
   \<and> \<not> str_includes (stdout still_booting) ''stopped''
   \<and> error still_booting = None
   \<and> settled (checkBooted ''emulator'' slow_answers) = Rejected (Msg timeout_msg)
   \<and> length (issued (checkBooted ''emulator'' slow_answers)) = 22"
proof -
  have f: "feasible ''emulator'' poll_start slow_answers"
    by (simp add: poll_start_def slow_answers_def tick_def exec_callback_def Let_def
        still_booting_def settle_def bootanim_cmd_def eval_nat_numeral)
  have a: "answers slow_answers = replicate 20 still_booting"
    by (simp add: slow_answers_def eval_nat_numeral)
  have q: "\<not> str_includes (stdout still_booting) ''stopped''" "error still_booting = None"
    by (simp_all add: still_booting_def)
  have s: "settled (checkBooted ''emulator'' slow_answers) = Rejected (Msg timeout_msg)"
    by (simp add: checkBooted_def poll_start_def slow_answers_def tick_def exec_callback_def Let_def
        still_booting_def settle_def bootanim_cmd_def eval_nat_numeral)
  have n: "length (issued (checkBooted ''emulator'' slow_answers)) = 22"
    by (simp add: checkBooted_def poll_start_def slow_answers_def tick_def exec_callback_def Let_def
        still_booting_def settle_def bootanim_cmd_def eval_nat_numeral)
  from f a q s n show ?thesis by simp
qed

text \<open>
  Claim C1, amended. Answers are counted in the order in which their callbacks run. In
  every run of \<^verbatim>\<open>checkBooted\<close>: an answer whose standard output contains \<^verbatim>\<open>stopped\<close>,
  among the first 20 and with no command error and no \<^verbatim>\<open>stopped\<close> before it, resolves
  the promise as it arrives; if none of the first 20 answers contains \<^verbatim>\<open>stopped\<close> and
  none reports a command error, the promise is rejected with the timeout message when
  the twentieth arrives, and is pending before; once the timer is cleared no further
  query is issued and the outcome stays. When every query is answered before the next
  tick, at most 20 queries are issued, and exactly 20 in the timeout case.
\<close>

theorem checkBooted_poll:
  "(\<forall>k<length (answers es).
       k < 20 \<and> str_includes (stdout (answers es ! k)) ''stopped''
       \<and> (\<forall>i<k. \<not> str_includes (stdout (answers es ! i)) ''stopped'' \<and> error (answers es ! i) = None)
     \<longrightarrow> settled (checkBooted p es) = Resolved \<and> cleared (checkBooted p es))
   \<and> (20 \<le> length (answers es)
       \<and> (\<forall>i<20. \<not> str_includes (stdout (answers es ! i)) ''stopped'' \<and> error (answers es ! i) = None)
     \<longrightarrow> settled (checkBooted p es) = Rejected (Msg timeout_msg) \<and> cleared (checkBooted p es))
   \<and> (length (answers es) < 20
       \<and> (\<forall>i<length (answers es).
             \<not> str_includes (stdout (answers es ! i)) ''stopped'' \<and> error (answers es ! i) = None)
     \<longrightarrow> settled (checkBooted p es) = Pending \<and> \<not> cleared (checkBooted p es))
   \<and> (cleared (checkBooted p es)
     \<longrightarrow> (\<forall>es'. issued (checkBooted p (es @ es')) = issued (checkBooted p es)
               \<and> settled (checkBooted p (es @ es')) = settled (checkBooted p es)))
   \<and> length (issued (checkBooted p (in_step rs))) \<le> 20
   \<and> (20 \<le> length rs
       \<and> (\<forall>i<20. \<not> str_includes (stdout (rs ! i)) ''stopped'' \<and> error (rs ! i) = None)
     \<longrightarrow> length (issued (checkBooted p (in_step rs))) = 20)"
proof -
  let ?s = "checkBooted p es"
  let ?as = "answers es"
  from checkBooted_run [of p es] consider
    (pending) "settled ?s = Pending" "\<not> cleared ?s" "\<forall>i<length ?as. verdict i (?as ! i) = None"
    | (decided) n where "n < length ?as" "cleared ?s" "verdict n (?as ! n) = Some (settled ?s)"
        "\<forall>i<n. verdict i (?as ! i) = None"
    by blast
  note run = this
  have resolves: "settled ?s = Resolved \<and> cleared ?s"
    if k: "k < length ?as" "k < 20" "str_includes (stdout (?as ! k)) ''stopped''"
      "\<forall>i<k. \<not> str_includes (stdout (?as ! i)) ''stopped'' \<and> error (?as ! i) = None" for k
  proof -
    from k(3) have vk: "verdict k (?as ! k) = Some Resolved"
      by (rule verdict_stopped)
    from run show ?thesis
    proof cases
      case pending
      with k(1) vk show ?thesis by force
    next
      case decided
      have "\<not> n < k"
      proof
        assume "n < k"
        with k(2,4) have "verdict n (?as ! n) = None"
          by (simp add: verdict_None)
        with decided(3) show False by simp
      qed
      moreover have "\<not> k < n"
        using decided(4) vk by force
      ultimately have "n = k" by simp
      with decided(2,3) vk show ?thesis by simp
    qed
  qed
  have times_out: "settled ?s = Rejected (Msg timeout_msg) \<and> cleared ?s"
    if q: "20 \<le> length ?as"
      "\<forall>i<20. \<not> str_includes (stdout (?as ! i)) ''stopped'' \<and> error (?as ! i) = None"
  proof -
    from q(2) have v19: "verdict 19 (?as ! 19) = Some (Rejected (Msg timeout_msg))"
      by (simp add: verdict_def)
    from run show ?thesis
    proof cases
      case pending
      with q(1) v19 show ?thesis by force
    next
      case decided
      have "\<not> n < 19"
      proof
        assume "n < 19"
        with q(2) have "verdict n (?as ! n) = None"
          by (simp add: verdict_None)
        with decided(3) show False by simp
      qed
      moreover have "\<not> 19 < n"
        using decided(4) v19 by force
      ultimately have "n = 19" by simp
      with decided(2,3) v19 show ?thesis by simp
    qed
  qed
  have waits: "settled ?s = Pending \<and> \<not> cleared ?s"
    if q: "length ?as < 20"
      "\<forall>i<length ?as. \<not> str_includes (stdout (?as ! i)) ''stopped'' \<and> error (?as ! i) = None"
  proof -
    from run show ?thesis
    proof cases
      case pending
      then show ?thesis by simp
    next
      case decided
      from decided(1) q have "verdict n (?as ! n) = None"
        by (simp add: verdict_None)
      with decided(3) show ?thesis by simp
    qed
  qed
  have frozen: "issued (checkBooted p (es @ es')) = issued ?s
       \<and> settled (checkBooted p (es @ es')) = settled ?s"
    if c: "cleared ?s" for es'
  proof -
    from run c obtain n where "verdict n (?as ! n) = Some (settled ?s)"
      by (cases) auto
    then have "settled ?s \<noteq> Pending"
      by (rule verdict_settles)
    with cleared_frozen [OF c, of p es'] show ?thesis
      by (simp add: checkBooted_append)
  qed
  from in_step_run [of p rs] consider
    (running) "length (issued (checkBooted p (in_step rs))) = length rs"
      "\<forall>i<length rs. verdict i (rs ! i) = None"
    | (over) m where "m < length rs" "length (issued (checkBooted p (in_step rs))) = m + 1"
        "verdict m (rs ! m) \<noteq> None" "\<forall>i<m. verdict i (rs ! i) = None"
    by blast
  note sync = this
  have bound: "length (issued (checkBooted p (in_step rs))) \<le> 20"
  proof -
    from sync show ?thesis
    proof cases
      case running
      have "\<not> 19 < length rs"
      proof
        assume "19 < length rs"
        with running(2) have "verdict 19 (rs ! 19) = None" by blast
        then show False by (simp add: verdict_None)
      qed
      with running(1) show ?thesis by simp
    next
      case over
      have "\<not> 19 < m"
      proof
        assume "19 < m"
        with over(4) have "verdict 19 (rs ! 19) = None" by blast
        then show False by (simp add: verdict_None)
      qed
      with over(2) show ?thesis by simp
    qed
  qed
  have exact: "length (issued (checkBooted p (in_step rs))) = 20"
    if q: "20 \<le> length rs"
      "\<forall>i<20. \<not> str_includes (stdout (rs ! i)) ''stopped'' \<and> error (rs ! i) = None"
  proof -
    from sync show ?thesis
    proof cases
      case running
      with q(1) have "verdict 19 (rs ! 19) = None" by simp
      then show ?thesis by (simp add: verdict_None)
    next
      case over
      have "\<not> m < 19"
      proof
        assume "m < 19"
        with q(2) have "verdict m (rs ! m) = None"
          by (simp add: verdict_None)
        with over(3) show False by simp
      qed
      moreover have "\<not> 19 < m"
      proof
        assume "19 < m"
        with over(4) have "verdict 19 (rs ! 19) = None" by blast
        then show False by (simp add: verdict_None)
      qed
      ultimately have "m = 19" by simp
      with over(2) show ?thesis by simp
    qed
  qed
  from resolves times_out waits frozen bound exact show ?thesis
    by blast
qed

text \<open>
  The emulator that answers \<^verbatim>\<open>stopped\<close> to the third query; the one that has answered
  once and is still booting; the one that never boots; each answered in step.
\<close>

theorem checkBooted_poll_witness:
  "answers (in_step [still_booting, still_booting, booted]) = [still_booting, still_booting, booted]
   \<and> str_includes (stdout booted) ''stopped''
   \<and> \<not> str_includes (stdout still_booting) ''stopped''
   \<and> error still_booting = None
   \<and> settled (checkBooted ''emulator'' (in_step [still_booting, still_booting, booted])) = Resolved
   \<and> cleared (checkBooted ''emulator'' (in_step [still_booting, still_booting, booted]))
   \<and> issued (checkBooted ''emulator'' (in_step [still_booting, still_booting, booted] @ [Tick, Tick])) =
       issued (checkBooted ''emulator'' (in_step [still_booting, still_booting, booted]))
   \<and> settled (checkBooted ''emulator'' (in_step [still_booting])) = Pending
   \<and> settled (checkBooted ''emulator'' (in_step (replicate 20 still_booting))) =
       Rejected (Msg timeout_msg)
   \<and> length (issued (checkBooted ''emulator'' (in_step (replicate 20 still_booting)))) = 20"
proof -
  let ?three = "in_step [still_booting, still_booting, booted]"
  let ?twenty = "replicate 20 still_booting"
  have a3: "answers ?three = [still_booting, still_booting, booted]"
    by (rule answers_in_step)
  have b: "str_includes (stdout booted) ''stopped''"
    by (simp add: booted_def)
  have q: "\<not> str_includes (stdout still_booting) ''stopped''" "error still_booting = None"
    by (simp_all add: still_booting_def)
  have h1: "2 < length (answers ?three)" "(2::nat) < 20"
    "str_includes (stdout (answers ?three ! 2)) ''stopped''"
    "\<forall>i<2. \<not> str_includes (stdout (answers ?three ! i)) ''stopped'' \<and> error (answers ?three ! i) = None"
    using b q by (simp_all add: a3 less_Suc_eq numeral_2_eq_2)
  from checkBooted_poll [of ?three "''emulator''" "[]", THEN conjunct1, rule_format, of 2] h1
  have r1: "settled (checkBooted ''emulator'' ?three) = Resolved \<and> cleared (checkBooted ''emulator'' ?three)"
    by blast
  from checkBooted_poll [of ?three "''emulator''" "[]", THEN conjunct2, THEN conjunct2, THEN conjunct2,
      THEN conjunct1, rule_format, of "[Tick, Tick]"] r1
  have r2: "issued (checkBooted ''emulator'' (?three @ [Tick, Tick])) = issued (checkBooted ''emulator'' ?three)"
    by simp
  have h3: "length (answers (in_step [still_booting])) < 20
      \<and> (\<forall>i<length (answers (in_step [still_booting])).
            \<not> str_includes (stdout (answers (in_step [still_booting]) ! i)) ''stopped''
            \<and> error (answers (in_step [still_booting]) ! i) = None)"
    using q by (simp add: answers_in_step)
  from checkBooted_poll [of "in_step [still_booting]" "''emulator''" "[]", THEN conjunct2, THEN conjunct2,
      THEN conjunct1, rule_format, OF h3]
  have r3: "settled (checkBooted ''emulator'' (in_step [still_booting])) = Pending"
    by simp
  have h4: "20 \<le> length (answers (in_step ?twenty))
      \<and> (\<forall>i<20. \<not> str_includes (stdout (answers (in_step ?twenty) ! i)) ''stopped''
            \<and> error (answers (in_step ?twenty) ! i) = None)"
    using q by (simp add: answers_in_step)
  from checkBooted_poll [of "in_step ?twenty" "''emulator''" "[]", THEN conjunct2, THEN conjunct1,
      rule_format, OF h4]
  have r4: "settled (checkBooted ''emulator'' (in_step ?twenty)) = Rejected (Msg timeout_msg)"
    by simp
  have h5: "20 \<le> length ?twenty
      \<and> (\<forall>i<20. \<not> str_includes (stdout (?twenty ! i)) ''stopped'' \<and> error (?twenty ! i) = None)"
    using q by simp
  from checkBooted_poll [of "[]" "''emulator''" ?twenty, THEN conjunct2, THEN conjunct2, THEN conjunct2,
      THEN conjunct2, THEN conjunct2, rule_format, OF h5]
  have r5: "length (issued (checkBooted ''emulator'' (in_step ?twenty))) = 20"
    by simp
  from a3 b q r1 r2 r3 r4 r5 show ?thesis by simp
qed

text \<open>
  Claim C2, as stated, fails on the code. The callback tests the standard output first,
  the counter second and the command error last: a command error in the twentieth
  answer is met with the timeout message, not with the error, and a failing command
  whose output contains \<^verbatim>\<open>stopped\<close> resolves the promise. And the timer goes on while a
  command runs: when the second query fails after seven seconds, two further queries
  have been issued by the time its error arrives.
\<close>

theorem checkBooted_error_counterexample:
  "error offline = Some (LibError ''device offline'')
   \<and> answers (in_step (replicate 19 still_booting @ [offline])) = replicate 19 still_booting @ [offline]
   \<and> settled (checkBooted ''emulator'' (in_step (replicate 19 still_booting @ [offline]))) =
       Rejected (Msg timeout_msg)
   \<and> settled (checkBooted ''emulator'' (in_step (replicate 19 still_booting @ [offline]))) \<noteq>
       Rejected (Err (LibError ''device offline''))
   \<and> error fails_when_booted = Some (LibError ''exit code 1'')
   \<and> settled (checkBooted ''emulator'' (in_step [fails_when_booted])) = Resolved
   \<and> feasible ''emulator'' poll_start slow_failure
   \<and> answers slow_failure = [still_booting, offline]
   \<and> settled (checkBooted ''emulator'' slow_failure) = Rejected (Err (LibError ''device offline''))
   \<and> length (issued (checkBooted ''emulator'' slow_failure)) = 4"
proof -
  have e20: "error offline = Some (LibError ''device offline'')"
    by (simp add: offline_def)
  have a20: "answers (in_step (replicate 19 still_booting @ [offline])) =
      replicate 19 still_booting @ [offline]"
    by (rule answers_in_step)
  have run20: "settled (checkBooted ''emulator'' (in_step (replicate 19 still_booting @ [offline]))) =
       Rejected (Msg timeout_msg)"
    by (simp add: checkBooted_def poll_start_def in_step_def tick_def exec_callback_def Let_def
        still_booting_def offline_def settle_def bootanim_cmd_def eval_nat_numeral)
  have e1: "error fails_when_booted = Some (LibError ''exit code 1'')"
    by (simp add: fails_when_booted_def)
  have run1: "settled (checkBooted ''emulator'' (in_step [fails_when_booted])) = Resolved"
    by (simp add: checkBooted_def poll_start_def in_step_def tick_def exec_callback_def Let_def
        fails_when_booted_def settle_def bootanim_cmd_def)
  have f: "feasible ''emulator'' poll_start slow_failure"
    by (simp add: poll_start_def slow_failure_def tick_def exec_callback_def Let_def
        still_booting_def offline_def settle_def bootanim_cmd_def)
  have a: "answers slow_failure = [still_booting, offline]"
    by (simp add: slow_failure_def)
  have s: "settled (checkBooted ''emulator'' slow_failure) = Rejected (Err (LibError ''device offline''))"
    by (simp add: checkBooted_def poll_start_def slow_failure_def tick_def exec_callback_def Let_def
        still_booting_def offline_def settle_def bootanim_cmd_def)
  have n: "length (issued (checkBooted ''emulator'' slow_failure)) = 4"
    by (simp add: checkBooted_def poll_start_def slow_failure_def tick_def exec_callback_def Let_def
        still_booting_def offline_def settle_def bootanim_cmd_def)
  from e20 a20 run20 e1 run1 f a s n show ?thesis by simp
qed

text \<open>
  Claim C2, amended. Answers are counted in the order in which their callbacks run.
  When no answer so far contained \<^verbatim>\<open>stopped\<close> or reported a command error, and the next
  answer reports a command error without \<^verbatim>\<open>stopped\<close> in its output: if it is one of the
  answers 1 to 19, the promise is rejected with that error as the answer arrives; if it
  is the twentieth, the promise is rejected with the timeout message. In both cases the
  timer is cleared, no query is issued after the answer has arrived, and the outcome
  stays. The queries issued before the answer arrived stand.
\<close>

theorem checkBooted_error:
  "(\<forall>r' \<in> set (answers es). \<not> str_includes (stdout r') ''stopped'' \<and> error r' = None)
   \<and> error r = Some e \<and> \<not> str_includes (stdout r) ''stopped'' \<and> length (answers es) \<le> 19
   \<longrightarrow> (length (answers es) < 19
          \<longrightarrow> settled (checkBooted p (es @ [Answer r])) = Rejected (Err e))
       \<and> (length (answers es) = 19
          \<longrightarrow> settled (checkBooted p (es @ [Answer r])) = Rejected (Msg timeout_msg))
       \<and> cleared (checkBooted p (es @ [Answer r]))
       \<and> (\<forall>es'. issued (checkBooted p (es @ Answer r # es')) = issued (checkBooted p es)
               \<and> settled (checkBooted p (es @ Answer r # es')) =
                   settled (checkBooted p (es @ [Answer r])))"
proof (intro impI)
  let ?s = "checkBooted p es"
  let ?s' = "checkBooted p (es @ [Answer r])"
  assume a: "(\<forall>r' \<in> set (answers es). \<not> str_includes (stdout r') ''stopped'' \<and> error r' = None)
   \<and> error r = Some e \<and> \<not> str_includes (stdout r) ''stopped'' \<and> length (answers es) \<le> 19"
  then have quiet: "\<forall>r' \<in> set (answers es). \<not> str_includes (stdout r') ''stopped'' \<and> error r' = None"
    and err: "error r = Some e" and ns: "\<not> str_includes (stdout r) ''stopped''"
    and len: "length (answers es) \<le> 19"
    by blast+
  have undecided: "verdict i (answers es ! i) = None" if "i < length (answers es)" for i
  proof -
    from that have "answers es ! i \<in> set (answers es)" by simp
    with quiet have "\<not> str_includes (stdout (answers es ! i)) ''stopped'' \<and> error (answers es ! i) = None"
      by blast
    with that len show ?thesis
      by (simp add: verdict_None)
  qed
  from checkBooted_run [of p es] have cnt: "count ?s = length (answers es)"
    by blast
  have pending: "settled ?s = Pending"
  proof -
    from checkBooted_run [of p es] consider
      "settled ?s = Pending"
      | n where "n < length (answers es)" "verdict n (answers es ! n) = Some (settled ?s)"
      by blast
    then show ?thesis
    proof cases
      case 1
      then show ?thesis .
    next
      case 2
      with undecided [of n] show ?thesis by simp
    qed
  qed
  have s': "?s' = exec_callback p r ?s"
    by (simp add: checkBooted_snoc)
  from err ns have v: "verdict (count ?s) r =
      Some (if 19 \<le> length (answers es) then Rejected (Msg timeout_msg) else Rejected (Err e))"
    by (simp add: verdict_def cnt)
  from callback_decided [OF v, of p] pending
  have out: "settled ?s' =
      (if 19 \<le> length (answers es) then Rejected (Msg timeout_msg) else Rejected (Err e))"
    and cl: "cleared ?s'"
    by (simp_all add: s' settle_def)
  from out have np: "settled ?s' \<noteq> Pending"
    by simp
  have after: "issued (checkBooted p (es @ Answer r # es')) = issued ?s
               \<and> settled (checkBooted p (es @ Answer r # es')) = settled ?s'" for es'
  proof -
    have "checkBooted p (es @ Answer r # es') = foldl (step p) ?s' es'"
      using checkBooted_append [of p "es @ [Answer r]" es'] by simp
    with cleared_frozen [OF cl, of p es'] np show ?thesis
      by (simp add: s' callback_issued)
  qed
  from out cl after show "(length (answers es) < 19
          \<longrightarrow> settled ?s' = Rejected (Err e))
       \<and> (length (answers es) = 19
          \<longrightarrow> settled ?s' = Rejected (Msg timeout_msg))
       \<and> cleared ?s'
       \<and> (\<forall>es'. issued (checkBooted p (es @ Answer r # es')) = issued ?s
               \<and> settled (checkBooted p (es @ Answer r # es')) = settled ?s')"
    by simp
qed

text \<open>
  The slow failure of the second query, with two ticks after its answer; and a failure
  in the twentieth answer.
\<close>

theorem checkBooted_error_witness:
  "answers [Tick, Answer still_booting, Tick, Tick, Tick] = [still_booting]
   \<and> \<not> str_includes (stdout still_booting) ''stopped'' \<and> error still_booting = None
   \<and> error offline = Some (LibError ''device offline'')
   \<and> \<not> str_includes (stdout offline) ''stopped''
   \<and> settled (checkBooted ''emulator'' ([Tick, Answer still_booting, Tick, Tick, Tick] @ [Answer offline])) =
       Rejected (Err (LibError ''device offline''))
   \<and> issued (checkBooted ''emulator''
         ([Tick, Answer still_booting, Tick, Tick, Tick] @ Answer offline # [Tick, Tick])) =
       issued (checkBooted ''emulator'' [Tick, Answer still_booting, Tick, Tick, Tick])
   \<and> answers (in_step (replicate 19 still_booting) @ [Tick]) = replicate 19 still_booting
   \<and> settled (checkBooted ''emulator'' ((in_step (replicate 19 still_booting) @ [Tick]) @ [Answer offline])) =
       Rejected (Msg timeout_msg)"
proof -
  let ?es = "[Tick, Answer still_booting, Tick, Tick, Tick]"
  let ?es19 = "in_step (replicate 19 still_booting) @ [Tick]"
  have a1: "answers ?es = [still_booting]"
    by simp
  have a19: "answers ?es19 = replicate 19 still_booting"
    by (simp add: answers_append answers_in_step)
  have q: "\<not> str_includes (stdout still_booting) ''stopped''" "error still_booting = None"
    by (simp_all add: still_booting_def)
  have o: "error offline = Some (LibError ''device offline'')" "\<not> str_includes (stdout offline) ''stopped''"
    by (simp_all add: offline_def)
  have h1: "(\<forall>r' \<in> set (answers ?es). \<not> str_includes (stdout r') ''stopped'' \<and> error r' = None)
      \<and> error offline = Some (LibError ''device offline'')
      \<and> \<not> str_includes (stdout offline) ''stopped'' \<and> length (answers ?es) \<le> 19"
    using q o by simp
  have h19: "(\<forall>r' \<in> set (answers ?es19). \<not> str_includes (stdout r') ''stopped'' \<and> error r' = None)
      \<and> error offline = Some (LibError ''device offline'')
      \<and> \<not> str_includes (stdout offline) ''stopped'' \<and> length (answers ?es19) \<le> 19"
    using q o by (simp add: a19)
  from checkBooted_error [of ?es offline "LibError ''device offline''" "''emulator''", rule_format, OF h1]
  have r1: "settled (checkBooted ''emulator'' (?es @ [Answer offline])) =
        Rejected (Err (LibError ''device offline''))"
    and r2: "issued (checkBooted ''emulator'' (?es @ Answer offline # [Tick, Tick])) =
        issued (checkBooted ''emulator'' ?es)"
    by simp_all
  from checkBooted_error [of ?es19 offline "LibError ''device offline''" "''emulator''", rule_format, OF h19]
  have r3: "settled (checkBooted ''emulator'' (?es19 @ [Answer offline])) = Rejected (Msg timeout_msg)"
    by (simp add: a19)
  from a1 q o r1 r2 a19 r3 show ?thesis by simp
qed

section \<open>Properties of the certificate and profile lookup\<close>

lemma foldl_keep:
  "foldl (\<lambda>found x. if test x then Some x else found) a xs =
     (case filter test xs of [] \<Rightarrow> a | y # ys \<Rightarrow> Some (last (y # ys)))"
proof (induction xs arbitrary: a)
  case Nil
  show ?case by simp
next
  case (Cons x xs)
  show ?case
    by (cases "filter test xs") (simp_all add: Cons.IH)
qed

lemma forEach_keep_last_match: "forEach_keep test xs = last_match test xs"
  by (simp add: forEach_keep_def last_match_def foldl_keep)

lemma last_match_snoc:
  "last_match test (xs @ [x]) = (if test x then Some x else last_match test xs)"
  by (cases "filter test xs") (simp_all add: last_match_def)

text \<open>
  \<open>last_match\<close> is the match at the greatest position: no record after it matches.
\<close>

lemma last_match_position:
  "last_match test xs = Some x \<longleftrightarrow>
     (\<exists>i<length xs. xs ! i = x \<and> test x \<and> (\<forall>j. i < j \<and> j < length xs \<longrightarrow> \<not> test (xs ! j)))"
proof (induction xs rule: rev_induct)
  case Nil
  show ?case by (simp add: last_match_def)
next
  case (snoc y ys)
  show ?case
  proof (cases "test y")
    case True
    have "(\<exists>i<length (ys @ [y]). (ys @ [y]) ! i = x \<and> test x
             \<and> (\<forall>j. i < j \<and> j < length (ys @ [y]) \<longrightarrow> \<not> test ((ys @ [y]) ! j))) \<longleftrightarrow> y = x"
    proof
      assume "\<exists>i<length (ys @ [y]). (ys @ [y]) ! i = x \<and> test x
             \<and> (\<forall>j. i < j \<and> j < length (ys @ [y]) \<longrightarrow> \<not> test ((ys @ [y]) ! j))"
      then obtain i where i: "i < length (ys @ [y])" "(ys @ [y]) ! i = x"
        "\<forall>j. i < j \<and> j < length (ys @ [y]) \<longrightarrow> \<not> test ((ys @ [y]) ! j)"
        by blast
      have "\<not> i < length ys"
      proof
        assume "i < length ys"
        with i(3) have "i < length ys \<and> length ys < length (ys @ [y])
            \<longrightarrow> \<not> test ((ys @ [y]) ! length ys)" by blast
        with \<open>i < length ys\<close> have "\<not> test ((ys @ [y]) ! length ys)" by simp
        with True show False by simp
      qed
      with i(1) have "i = length ys" by simp
      with i(2) show "y = x" by simp
    next
      assume "y = x"
      with True show "\<exists>i<length (ys @ [y]). (ys @ [y]) ! i = x \<and> test x
             \<and> (\<forall>j. i < j \<and> j < length (ys @ [y]) \<longrightarrow> \<not> test ((ys @ [y]) ! j))"
        by (intro exI [of _ "length ys"]) auto
    qed
    with True show ?thesis
      by (simp add: last_match_snoc)
  next
    case False
    have "(\<exists>i<length (ys @ [y]). (ys @ [y]) ! i = x \<and> test x
             \<and> (\<forall>j. i < j \<and> j < length (ys @ [y]) \<longrightarrow> \<not> test ((ys @ [y]) ! j)))
          \<longleftrightarrow> (\<exists>i<length ys. ys ! i = x \<and> test x
             \<and> (\<forall>j. i < j \<and> j < length ys \<longrightarrow> \<not> test (ys ! j)))"
      (is "?L \<longleftrightarrow> ?R")
    proof
      assume ?L
      then obtain i where i: "i < length (ys @ [y])" "(ys @ [y]) ! i = x" "test x"
        "\<forall>j. i < j \<and> j < length (ys @ [y]) \<longrightarrow> \<not> test ((ys @ [y]) ! j)"
        by blast
      from i(2,3) False have "i \<noteq> length ys" by auto
      with i(1) have less: "i < length ys" by simp
      have "\<forall>j. i < j \<and> j < length ys \<longrightarrow> \<not> test (ys ! j)"
      proof (intro allI impI)
        fix j assume j: "i < j \<and> j < length ys"
        with i(4) have "\<not> test ((ys @ [y]) ! j)" by simp
        with j show "\<not> test (ys ! j)" by (simp add: nth_append)
      qed
      with less i(2,3) show ?R
        by (intro exI [of _ i]) (auto simp: nth_append)
    next
      assume ?R
      then obtain i where i: "i < length ys" "ys ! i = x" "test x"
        "\<forall>j. i < j \<and> j < length ys \<longrightarrow> \<not> test (ys ! j)"
        by blast
      have "\<forall>j. i < j \<and> j < length (ys @ [y]) \<longrightarrow> \<not> test ((ys @ [y]) ! j)"
      proof (intro allI impI)
        fix j assume j: "i < j \<and> j < length (ys @ [y])"
        show "\<not> test ((ys @ [y]) ! j)"
        proof (cases "j < length ys")
          case True
          with i(4) j show ?thesis by (simp add: nth_append)
        next
          case False
          with j have "j = length ys" by simp
          with \<open>\<not> test y\<close> show ?thesis by simp
        qed
      qed
      with i(1,2,3) show ?L
        by (intro exI [of _ i]) (auto simp: nth_append)
    qed
    with False snoc.IH show ?thesis
      by (simp add: last_match_snoc)
  qed
qed

lemma last_match_None: "last_match test xs = None \<longleftrightarrow> (\<forall>x \<in> set xs. \<not> test x)"
  by (cases "filter test xs") (auto simp: last_match_def filter_empty_conv dest: filter_eq_ConsD)

text \<open>
  Claim C5. On a darwin host, when the library answers and holds a list of records for
  a valid type, \<^verbatim>\<open>getCert\<close> returns the last record of the list whose name contains the
  search string, and \<^verbatim>\<open>getProfile\<close> the last record whose name equals it; when no
  record matches, each raises its \<^verbatim>\<open>No ... found\<close> error.
\<close>

theorem lookup_last_match:
  "(process_platform = ''darwin'' \<and> getCerts = Inr certs \<and> certs type = Some cs
      \<and> type \<in> {''developer'', ''distribution''}
    \<longrightarrow> fst (getCert process_platform getCerts type search) =
          (case last_match (\<lambda>cert. str_includes (name cert) search) cs of
             None \<Rightarrow> Inl (Error (''No certificate found with a name including '' @ sq @ search @ sq))
           | Some cert \<Rightarrow> Inr (Some cert)))
   \<and> (process_platform = ''darwin'' \<and> getProvisioningProfiles = Inr profiles
      \<and> profiles type' = Some ps \<and> type' \<in> {''adhoc'', ''development'', ''distribution''}
    \<longrightarrow> fst (getProfile process_platform getProvisioningProfiles type' search') =
          (case last_match (\<lambda>profile. name profile = search') ps of
             None \<Rightarrow> Inl (Error (''No provisioning profile found with a name matching ''
                                   @ sq @ search' @ sq))
           | Some profile \<Rightarrow> Inr (Some profile)))"
proof (intro conjI impI)
  assume a: "process_platform = ''darwin'' \<and> getCerts = Inr certs \<and> certs type = Some cs
      \<and> type \<in> {''developer'', ''distribution''}"
  then have "List.member [''developer'', ''distribution''] type"
    by auto
  with a show "fst (getCert process_platform getCerts type search) =
          (case last_match (\<lambda>cert. str_includes (name cert) search) cs of
             None \<Rightarrow> Inl (Error (''No certificate found with a name including '' @ sq @ search @ sq))
           | Some cert \<Rightarrow> Inr (Some cert))"
    by (simp add: getCert_def forEach_keep_last_match split: option.splits)
next
  assume a: "process_platform = ''darwin'' \<and> getProvisioningProfiles = Inr profiles
      \<and> profiles type' = Some ps \<and> type' \<in> {''adhoc'', ''development'', ''distribution''}"
  then have "List.member [''adhoc'', ''development'', ''distribution''] type'"
    by auto
  with a show "fst (getProfile process_platform getProvisioningProfiles type' search') =
          (case last_match (\<lambda>profile. name profile = search') ps of
             None \<Rightarrow> Inl (Error (''No provisioning profile found with a name matching ''
                                   @ sq @ search' @ sq))
           | Some profile \<Rightarrow> Inr (Some profile))"
    by (simp add: getProfile_def forEach_keep_last_match split: option.splits)
qed

text \<open>
  Two certificates match \<^verbatim>\<open>Developer\<close> and the later one is returned, none matches
  \<^verbatim>\<open>Carol\<close>; two profiles are named \<^verbatim>\<open>Team Profile\<close> and the later one is returned.
\<close>

theorem lookup_last_match_witness:
  "certs_table ''developer'' = Some two_developers
   \<and> fst (getCert ''darwin'' (Inr certs_table) ''developer'' ''Developer'') =
       Inr (Some \<lparr>name = ''iPhone Developer: Bob'', keychain = ''System''\<rparr>)
   \<and> fst (getCert ''darwin'' (Inr certs_table) ''developer'' ''Carol'') =
       Inl (Error (''No certificate found with a name including '' @ sq @ ''Carol'' @ sq))
   \<and> profiles_table ''development'' = Some two_profiles
   \<and> fst (getProfile ''darwin'' (Inr profiles_table) ''development'' ''Team Profile'') =
       Inr (Some \<lparr>name = ''Team Profile'', uuid = ''0003''\<rparr>)"
proof -
  have t1: "certs_table ''developer'' = Some two_developers"
    by (simp add: certs_table_def)
  have t2: "profiles_table ''development'' = Some two_profiles"
    by (simp add: profiles_table_def)
  have m1: "last_match (\<lambda>cert. str_includes (name cert) ''Developer'') two_developers =
      Some \<lparr>name = ''iPhone Developer: Bob'', keychain = ''System''\<rparr>"
    by code_simp
  have m2: "last_match (\<lambda>cert. str_includes (name cert) ''Carol'') two_developers = None"
    by code_simp
  have m3: "last_match (\<lambda>profile. name profile = ''Team Profile'') two_profiles =
      Some \<lparr>name = ''Team Profile'', uuid = ''0003''\<rparr>"
    by code_simp
  from lookup_last_match [of "''darwin''" "Inr certs_table" certs_table "''developer''" two_developers
      "''Developer''" "Inr profiles_table" profiles_table "''development''" two_profiles
      "''Team Profile''"] t1 t2 m1 m3
  have r1: "fst (getCert ''darwin'' (Inr certs_table) ''developer'' ''Developer'') =
       Inr (Some \<lparr>name = ''iPhone Developer: Bob'', keychain = ''System''\<rparr>)"
    and r3: "fst (getProfile ''darwin'' (Inr profiles_table) ''development'' ''Team Profile'') =
       Inr (Some \<lparr>name = ''Team Profile'', uuid = ''0003''\<rparr>)"
    by simp_all
  from lookup_last_match [of "''darwin''" "Inr certs_table" certs_table "''developer''" two_developers
      "''Carol''" "Inr profiles_table" profiles_table "''development''" two_profiles
      "''Team Profile''"] t1 m2
  have r2: "fst (getCert ''darwin'' (Inr certs_table) ''developer'' ''Carol'') =
       Inl (Error (''No certificate found with a name including '' @ sq @ ''Carol'' @ sq))"
    by simp
  from t1 t2 r1 r2 r3 show ?thesis by simp
qed

text \<open>
  Claim C6. On a host whose platform is not darwin, both lookups return
  \<^verbatim>\<open>undefined\<close> for every type and search string, raise nothing and make no call to the
  library.
\<close>

theorem lookup_other_platform:
  "process_platform \<noteq> ''darwin''
   \<longrightarrow> getCert process_platform getCerts type search = (Inr None, [])
       \<and> getProfile process_platform getProvisioningProfiles type' search' = (Inr None, [])"
  by (simp add: getCert_def getProfile_def)

theorem lookup_other_platform_witness:
  "''win32'' \<noteq> ''darwin''
   \<and> getCert ''win32'' (Inr certs_table) ''developer'' ''Developer'' = (Inr None, [])
   \<and> getProfile ''win32'' (Inr profiles_table) ''development'' ''Team Profile'' = (Inr None, [])"
  using lookup_other_platform [of "''win32''" "Inr certs_table" "''developer''" "''Developer''"
      "Inr profiles_table" "''development''" "''Team Profile''"]
  by simp

text \<open>
  Claim C3, as stated, fails on the code. Both lookups call the library first and test
  the type afterwards: for the type \<^verbatim>\<open>enterprise\<close>, outside both allowed sets, the error
  is raised with the library call already made. On a host that is not darwin no error
  is raised at all.
\<close>

theorem lookup_invalid_type_counterexample:
  "''enterprise'' \<notin> {''developer'', ''distribution''}
   \<and> getCert ''darwin'' (Inr certs_table) ''enterprise'' ''Ada'' =
       (Inl (Error (''Argument '' @ sq @ ''enterprise'' @ sq @ '' is not a valid type of certificate'')),
        [Call_getCerts])
   \<and> ''enterprise'' \<notin> {''adhoc'', ''development'', ''distribution''}
   \<and> getProfile ''darwin'' (Inr profiles_table) ''enterprise'' ''Team Profile'' =
       (Inl (Error (''Argument '' @ sq @ ''enterprise'' @ sq
                     @ '' is not a valid type of provisioning profile'')),
        [Call_getProvisioningProfiles])
   \<and> fst (getCert ''win32'' (Inr certs_table) ''enterprise'' ''Ada'') = Inr None"
  by (simp add: getCert_def getProfile_def)

text \<open>
  Claim C3, amended. On a darwin host, for every type string outside the allowed set,
  the lookup calls the library once and then, if the library answered, raises the
  \<^verbatim>\<open>is not a valid type\<close> error; if the library call failed, that failure is the error
  raised. On any other host the lookup returns \<^verbatim>\<open>undefined\<close> and calls nothing.
\<close>

theorem lookup_invalid_type:
  "(process_platform = ''darwin'' \<and> type \<notin> {''developer'', ''distribution''}
    \<longrightarrow> getCert process_platform getCerts type search =
          (case getCerts of
             Inl e \<Rightarrow> (Inl e, [Call_getCerts])
           | Inr certs \<Rightarrow>
               (Inl (Error (''Argument '' @ sq @ type @ sq @ '' is not a valid type of certificate'')),
                [Call_getCerts])))
   \<and> (process_platform = ''darwin'' \<and> type' \<notin> {''adhoc'', ''development'', ''distribution''}
    \<longrightarrow> getProfile process_platform getProvisioningProfiles type' search' =
          (case getProvisioningProfiles of
             Inl e \<Rightarrow> (Inl e, [Call_getProvisioningProfiles])
           | Inr profiles \<Rightarrow>
               (Inl (Error (''Argument '' @ sq @ type' @ sq
                             @ '' is not a valid type of provisioning profile'')),
                [Call_getProvisioningProfiles])))
   \<and> (process_platform \<noteq> ''darwin''
    \<longrightarrow> getCert process_platform getCerts type search = (Inr None, [])
        \<and> getProfile process_platform getProvisioningProfiles type' search' = (Inr None, []))"
  by (auto simp: getCert_def getProfile_def split: sum.splits)

theorem lookup_invalid_type_witness:
  "''enterprise'' \<notin> {''developer'', ''distribution''}
   \<and> getCert ''darwin'' (Inr certs_table) ''enterprise'' ''Ada'' =
       (Inl (Error (''Argument '' @ sq @ ''enterprise'' @ sq @ '' is not a valid type of certificate'')),
        [Call_getCerts])
   \<and> ''enterprise'' \<notin> {''adhoc'', ''development'', ''distribution''}
   \<and> getProfile ''darwin'' (Inl (LibError ''security: keychain locked'') :: unit profile_ext ioslib_answer)
         ''enterprise'' ''Team Profile'' =
       (Inl (LibError ''security: keychain locked''), [Call_getProvisioningProfiles])
   \<and> ''linux'' \<noteq> ''darwin''
   \<and> getCert ''linux'' (Inr certs_table) ''enterprise'' ''Ada'' = (Inr None, [])"
  using
    lookup_invalid_type [of "''darwin''" "''enterprise''" "Inr certs_table" "''Ada''" "''enterprise''"
      "Inl (LibError ''security: keychain locked'') :: unit profile_ext ioslib_answer" "''Team Profile''"]
    lookup_invalid_type [of "''linux''" "''enterprise''" "Inr certs_table" "''Ada''" "''enterprise''"
      "Inr profiles_table" "''Team Profile''"]
  by simp

section \<open>Properties of the process control\<close>

lemma appium_path:
  "path_join process_platform [Some ''node_modules'', Some ''.bin'', Some ''appium''] =
     Inr (''node_modules'' @ path_sep process_platform @ ''.bin'' @ path_sep process_platform
          @ ''appium'')"
  by (simp add: path_join_def)

lemma getAppium_none:
  assumes "\<forall>x \<in> set list. \<not> str_includes (cmd x)
             (''node_modules'' @ path_sep process_platform @ ''.bin'' @ path_sep process_platform
              @ ''appium'')"
  shows "getAppium process_platform (Inr list) = Inr None"
proof -
  from assms have "List.find (\<lambda>x. str_includes (cmd x)
             (''node_modules'' @ path_sep process_platform @ ''.bin'' @ path_sep process_platform
              @ ''appium'')) list = None"
    by (simp add: find_None_iff)
  then show ?thesis
    by (simp add: getAppium_def appium_path)
qed

lemma getAndroidPID_none:
  assumes "\<forall>x \<in> set list. \<not> str_includes (cmd x) deviceName"
  shows "getAndroidPID (Inr list) deviceName =
           Inl (Error (''Cannot find an Android PID for '' @ deviceName))"
proof -
  from assms have "List.find (\<lambda>x. str_includes (cmd x) deviceName) list = None"
    by (simp add: find_None_iff)
  then show ?thesis
    by (simp add: getAndroidPID_def)
qed

text \<open>
  Claim C8. When the process list holds no entry whose command line contains the path of
  the Appium binary, \<^verbatim>\<open>quitServ\<close> throws \<^verbatim>\<open>PID for Appium not found!\<close>; when it holds no
  entry whose command line contains the device name, \<^verbatim>\<open>killEmu\<close> throws
  \<^verbatim>\<open>Cannot find an Android PID for\<close> followed by the name. In both cases nothing is given
  to \<^verbatim>\<open>execSync\<close>: the only call made is the opening \<^verbatim>\<open>output.step\<close> of \<^verbatim>\<open>quitServ\<close>.
\<close>

theorem pid_not_found:
  "((\<forall>x \<in> set list. \<not> str_includes (cmd x)
         (''node_modules'' @ path_sep process_platform @ ''.bin'' @ path_sep process_platform
          @ ''appium''))
    \<longrightarrow> quitServ process_platform (Inr list) exec =
          (Some (Error ''PID for Appium not found!''), [Step ''Stopping Appium Server'']))
   \<and> ((\<forall>x \<in> set list. \<not> str_includes (cmd x) deviceName)
    \<longrightarrow> killEmu process_platform (Inr list) exec deviceName =
          (Some (Error (''Cannot find an Android PID for '' @ deviceName)), []))"
  by (simp add: quitServ_def killEmu_def getAppium_none getAndroidPID_none)

text \<open>A process list without an Appium server and without the emulator \<^verbatim>\<open>Pixel_3\<close>.\<close>

theorem pid_not_found_witness:
  "\<not> str_includes ''/sbin/launchd'' ''node_modules/.bin/appium''
   \<and> \<not> str_includes ''/usr/bin/node server.js'' ''node_modules/.bin/appium''
   \<and> quitServ ''darwin'' (Inr no_appium) exec_ok =
       (Some (Error ''PID for Appium not found!''), [Step ''Stopping Appium Server''])
   \<and> \<not> str_includes ''/sbin/launchd'' ''Pixel_3''
   \<and> \<not> str_includes ''/usr/bin/node server.js'' ''Pixel_3''
   \<and> killEmu ''darwin'' (Inr no_appium) exec_ok ''Pixel_3'' =
       (Some (Error ''Cannot find an Android PID for Pixel_3''), [])"
proof -
  have a1: "\<not> str_includes ''/sbin/launchd'' ''node_modules/.bin/appium''"
    by code_simp
  have a2: "\<not> str_includes ''/usr/bin/node server.js'' ''node_modules/.bin/appium''"
    by code_simp
  have d1: "\<not> str_includes ''/sbin/launchd'' ''Pixel_3''"
    by code_simp
  have d2: "\<not> str_includes ''/usr/bin/node server.js'' ''Pixel_3''"
    by code_simp
  have sep: "''node_modules'' @ path_sep ''darwin'' @ ''.bin'' @ path_sep ''darwin'' @ ''appium'' =
      ''node_modules/.bin/appium''"
    by (simp add: path_sep_def)
  from a1 a2 sep have h1: "\<forall>x \<in> set no_appium. \<not> str_includes (cmd x)
         (''node_modules'' @ path_sep ''darwin'' @ ''.bin'' @ path_sep ''darwin'' @ ''appium'')"
    by (simp add: no_appium_def)
  from d1 d2 have h2: "\<forall>x \<in> set no_appium. \<not> str_includes (cmd x) ''Pixel_3''"
    by (simp add: no_appium_def)
  from pid_not_found [of no_appium "''darwin''" exec_ok "''Pixel_3''"] h1 h2
  have "quitServ ''darwin'' (Inr no_appium) exec_ok =
          (Some (Error ''PID for Appium not found!''), [Step ''Stopping Appium Server''])
        \<and> killEmu ''darwin'' (Inr no_appium) exec_ok ''Pixel_3'' =
          (Some (Error (''Cannot find an Android PID for '' @ ''Pixel_3'')), [])"
    by blast
  with a1 a2 d1 d2 show ?thesis by simp
qed

text \<open>
  The host name gate of \<^verbatim>\<open>runAppium\<close>. Any host name outside the three local addresses
  is rejected, on every platform, with nothing spawned; on darwin and on win32 a local
  address leads to the \<^verbatim>\<open>spawn\<close> of the binary.
\<close>

lemma runAppium_external:
  assumes "hostname \<notin> {''localhost'', ''0.0.0.0'', ''127.0.0.1''}"
  shows "runAppium process_platform modRoot (Some hostname) port_option =
           (Rejected (Msg ''Connecting to an External Appium Server is Not Currently Supported''),
            [Step (''Starting Appium Server On '' @ sq @ hostname @ '':''
                     @ (case port_option of None \<Rightarrow> ''4723'' | Some p \<Rightarrow> p) @ sq)])"
  using assms by (simp add: runAppium_def)

lemma runAppium_local:
  assumes "hostname \<in> {''localhost'', ''0.0.0.0'', ''127.0.0.1''}"
    and "process_platform = ''darwin'' \<or> process_platform = ''win32''"
  shows "\<exists>appiumExe. runAppium process_platform modRoot (Some hostname) (Some port) =
           (Pending,
            [Step (''Starting Appium Server On '' @ sq @ hostname @ '':'' @ port @ sq),
             Spawn appiumExe [''--log-no-colors'', ''-a'', hostname, ''-p'', port, ''--show-ios-log'']])"
  using assms
  by (auto simp: runAppium_def path_join_def Let_def split: list.splits)

text \<open>
  Claim C4 against the code. The \<^verbatim>\<open>switch\<close> on the platform has the cases darwin and
  win32 and no default. On any other platform the name of the binary stays
  \<^verbatim>\<open>undefined\<close>, \<^verbatim>\<open>path.join\<close> throws on it inside the function given to the promise,
  and the promise is rejected with that \<^verbatim>\<open>TypeError\<close> before \<^verbatim>\<open>spawn\<close> is reached:
  on linux the host name \<^verbatim>\<open>localhost\<close> does not lead to the server process.
\<close>

theorem runAppium_linux_localhost:
  "runAppium ''linux'' ''/project'' (Some ''localhost'') (Some ''4723'') =
     (Rejected (Err TypeError),
      [Step (''Starting Appium Server On '' @ sq @ ''localhost:4723'' @ sq)])"
  by (simp add: runAppium_def path_join_def)

section \<open>Properties of the WebDriver session\<close>

text \<open>
  Claim C7. With no driver on \<^verbatim>\<open>global\<close>, \<^verbatim>\<open>stopClient\<close> throws nothing, leaves the
  globals as they are, and calls nothing on a driver: no \<^verbatim>\<open>closeApp\<close>, no
  \<^verbatim>\<open>removeApp\<close>, no \<^verbatim>\<open>quit\<close>. Its one call is the \<^verbatim>\<open>output.debug\<close> line that opens the
  function.
\<close>

theorem stopClient_no_session:
  "global_driver g = None
   \<longrightarrow> stopClient g = (None, g, [Debug ''Stopping WebDriver Instance''])"
  by (simp add: stopClient_def)

theorem stopClient_no_session_witness:
  "global_driver no_session = None
   \<and> stopClient no_session = (None, no_session, [Debug ''Stopping WebDriver Instance''])"
proof -
  have h: "global_driver no_session = None"
    by (simp add: no_session_def)
  with stopClient_no_session [of no_session] show ?thesis
    by simp
qed

lemma startClient_capabilities:
  "fst (snd (startClient process_platform ps promiseChainRemote g capabilities)) =
     inject_capabilities capabilities"
  by (simp add: startClient_def Let_def split: sum.splits option.splits)

text \<open>
  Claim C9. Whatever else happens in \<^verbatim>\<open>startClient\<close>, the capabilities object of the
  caller ends with \<^verbatim>\<open>newCommandTimeout\<close> set to 600. For the platform \<^verbatim>\<open>iOS\<close> the only
  other field written is \<^verbatim>\<open>automationName\<close>, set to \<^verbatim>\<open>XCUITest\<close>; for \<^verbatim>\<open>Android\<close> the
  only other fields written are \<^verbatim>\<open>automationName\<close>, set to \<^verbatim>\<open>Appium\<close>, and
  \<^verbatim>\<open>deviceReadyTimeout\<close>, set to 60; for any other platform no other field is written.
  Every field not named keeps the value the caller gave it.
\<close>

theorem startClient_injects:
  "fst (snd (startClient process_platform ps promiseChainRemote g capabilities)) ''newCommandTimeout''
     = Some (Num 600)
   \<and> (capabilities ''platformName'' = Some (Str ''iOS'')
      \<longrightarrow> fst (snd (startClient process_platform ps promiseChainRemote g capabilities))
              ''automationName'' = Some (Str ''XCUITest'')
          \<and> (\<forall>k. k \<noteq> ''automationName'' \<and> k \<noteq> ''newCommandTimeout''
                \<longrightarrow> fst (snd (startClient process_platform ps promiseChainRemote g capabilities)) k
                      = capabilities k))
   \<and> (capabilities ''platformName'' = Some (Str ''Android'')
      \<longrightarrow> fst (snd (startClient process_platform ps promiseChainRemote g capabilities))
              ''automationName'' = Some (Str ''Appium'')
          \<and> fst (snd (startClient process_platform ps promiseChainRemote g capabilities))
              ''deviceReadyTimeout'' = Some (Num 60)
          \<and> (\<forall>k. k \<noteq> ''automationName'' \<and> k \<noteq> ''deviceReadyTimeout'' \<and> k \<noteq> ''newCommandTimeout''
                \<longrightarrow> fst (snd (startClient process_platform ps promiseChainRemote g capabilities)) k
                      = capabilities k))
   \<and> (capabilities ''platformName'' \<noteq> Some (Str ''iOS'')
        \<and> capabilities ''platformName'' \<noteq> Some (Str ''Android'')
      \<longrightarrow> (\<forall>k. k \<noteq> ''newCommandTimeout''
                \<longrightarrow> fst (snd (startClient process_platform ps promiseChainRemote g capabilities)) k
                      = capabilities k))"
  unfolding startClient_capabilities
  by (simp add: inject_capabilities_def)

text \<open>An iOS and an Android capabilities object, each with two fields of the caller's.\<close>

theorem startClient_injects_witness:
  "ios_caps ''platformName'' = Some (Str ''iOS'')
   \<and> fst (snd (startClient ''darwin'' (Inr with_appium) (\<lambda>host port. android_session) no_session ios_caps))
        ''automationName'' = Some (Str ''XCUITest'')
   \<and> fst (snd (startClient ''darwin'' (Inr with_appium) (\<lambda>host port. android_session) no_session ios_caps))
        ''deviceName'' = Some (Str ''iPhone 7'')
   \<and> android_caps ''platformName'' = Some (Str ''Android'')
   \<and> fst (snd (startClient ''darwin'' (Inr with_appium) (\<lambda>host port. android_session) no_session android_caps))
        ''deviceReadyTimeout'' = Some (Num 60)
   \<and> fst (snd (startClient ''darwin'' (Inr with_appium) (\<lambda>host port. android_session) no_session android_caps))
        ''appPackage'' = Some (Str ''com.example.app'')"
proof -
  have i: "ios_caps ''platformName'' = Some (Str ''iOS'')"
    and idev: "ios_caps ''deviceName'' = Some (Str ''iPhone 7'')"
    by (simp_all add: ios_caps_def)
  have a: "android_caps ''platformName'' = Some (Str ''Android'')"
    and apkg: "android_caps ''appPackage'' = Some (Str ''com.example.app'')"
    by (simp_all add: android_caps_def)
  from startClient_injects [of "''darwin''" "Inr with_appium" "\<lambda>host port. android_session"
      no_session ios_caps] i idev
  have r1: "fst (snd (startClient ''darwin'' (Inr with_appium) (\<lambda>host port. android_session) no_session ios_caps))
        ''automationName'' = Some (Str ''XCUITest'')
     \<and> fst (snd (startClient ''darwin'' (Inr with_appium) (\<lambda>host port. android_session) no_session ios_caps))
        ''deviceName'' = Some (Str ''iPhone 7'')"
    by simp
  from startClient_injects [of "''darwin''" "Inr with_appium" "\<lambda>host port. android_session"
      no_session android_caps] a apkg
  have r2: "fst (snd (startClient ''darwin'' (Inr with_appium) (\<lambda>host port. android_session) no_session android_caps))
        ''deviceReadyTimeout'' = Some (Num 60)
     \<and> fst (snd (startClient ''darwin'' (Inr with_appium) (\<lambda>host port. android_session) no_session android_caps))
        ''appPackage'' = Some (Str ''com.example.app'')"
    by simp
  from i a r1 r2 show ?thesis by simp
qed

text \<open>
  Claim C10. When an Appium process is found and the host or the port read from its
  command line is \<^verbatim>\<open>undefined\<close>, the promise of \<^verbatim>\<open>startClient\<close> is rejected with
  \<^verbatim>\<open>Cannot locate Appium server details\<close>, and the function runs on all the same: the
  driver made for that host and port is stored on \<^verbatim>\<open>global\<close>, the custom commands are
  loaded, and \<^verbatim>\<open>driver.init\<close> is called.
\<close>

theorem startClient_rejects_and_goes_on:
  "getAppium process_platform ps = Inr (Some processInfo)
   \<longrightarrow> (let args = split_on CHR '' '' (cmd processInfo);
            host = element_at args (indexOf args ''-a'' + 1);
            port = element_at args (indexOf args ''-p'' + 1)
        in host = None \<or> port = None
           \<longrightarrow> startClient process_platform ps promiseChainRemote g capabilities =
                 (Rejected (Msg ''Cannot locate Appium server details''),
                  inject_capabilities capabilities,
                  g\<lparr>global_driver := Some (promiseChainRemote host port), global_webdriver := True\<rparr>,
                  [Debug ''Starting WebDriver Instance'', ChaiSetup, LoadDriverCommands, Init]))"
  by (auto simp: startClient_def Let_def settle_def split: option.splits)

text \<open>
  An Appium process whose command line ends with \<^verbatim>\<open>-a\<close>: the host is \<^verbatim>\<open>undefined\<close>, the
  port is \<^verbatim>\<open>4723\<close>.
\<close>

theorem startClient_rejects_and_goes_on_witness:
  "getAppium ''darwin'' (Inr appium_without_address) =
     Inr (Some \<lparr>pid = 5021, cmd = ''node /project/node_modules/.bin/appium --log-no-colors -p 4723 -a''\<rparr>)
   \<and> element_at (split_on CHR '' '' ''node /project/node_modules/.bin/appium --log-no-colors -p 4723 -a'')
        (indexOf (split_on CHR '' '' ''node /project/node_modules/.bin/appium --log-no-colors -p 4723 -a'')
           ''-a'' + 1) = None
   \<and> startClient ''darwin'' (Inr appium_without_address) (\<lambda>host port. android_session) no_session
        android_caps =
       (Rejected (Msg ''Cannot locate Appium server details''),
        inject_capabilities android_caps,
        no_session\<lparr>global_driver := Some android_session, global_webdriver := True\<rparr>,
        [Debug ''Starting WebDriver Instance'', ChaiSetup, LoadDriverCommands, Init])"
proof -
  have found: "getAppium ''darwin'' (Inr appium_without_address) =
     Inr (Some \<lparr>pid = 5021, cmd = ''node /project/node_modules/.bin/appium --log-no-colors -p 4723 -a''\<rparr>)"
    by code_simp
  have host: "element_at (split_on CHR '' '' ''node /project/node_modules/.bin/appium --log-no-colors -p 4723 -a'')
        (indexOf (split_on CHR '' '' ''node /project/node_modules/.bin/appium --log-no-colors -p 4723 -a'')
           ''-a'' + 1) = None"
    by code_simp
  from startClient_rejects_and_goes_on [of "''darwin''" "Inr appium_without_address"
      "\<lparr>pid = 5021, cmd = ''node /project/node_modules/.bin/appium --log-no-colors -p 4723 -a''\<rparr>"
      "\<lambda>host port. android_session" no_session android_caps] found host
  have "startClient ''darwin'' (Inr appium_without_address) (\<lambda>host port. android_session) no_session
        android_caps =
       (Rejected (Msg ''Cannot locate Appium server details''),
        inject_capabilities android_caps,
        no_session\<lparr>global_driver := Some android_session, global_webdriver := True\<rparr>,
        [Debug ''Starting WebDriver Instance'', ChaiSetup, LoadDriverCommands, Init])"
    by (simp add: Let_def)
  with found host show ?thesis by simp
qed

end
